theory Spec2Isabelle
  imports Complex_Main
begin

section \<open>Data model of \<^verbatim>\<open>src/App.tsx\<close>\<close>

text \<open>
  The interfaces \<^verbatim>\<open>Option\<close>, \<^verbatim>\<open>Question\<close> and \<^verbatim>\<open>ExamSet\<close> become records. The field
  \<^verbatim>\<open>id\<close> is renamed per record (\<open>oid\<close>, \<open>qid\<close>, \<open>eid\<close>) because \<open>id\<close> is the identity
  function of HOL; \<^verbatim>\<open>type\<close>, \<^verbatim>\<open>text\<close>, \<^verbatim>\<open>name\<close> and \<^verbatim>\<open>description\<close> get a prefix as well.
  Question ids, indices and the elapsed seconds are JavaScript numbers holding integers:
  \<open>int\<close>. The arithmetic the handlers do on them (adding or subtracting 1, \<^verbatim>\<open>%\<close>,
  \<^verbatim>\<open>Math.floor\<close> of a quotient) is exact on doubles below \<open>2^53\<close>, which a counter of seconds
  or an index never reaches.
\<close>

datatype question_type = Single | Multiple

record Option_t =
  oid :: string
  otext :: string

record Question =
  qid :: int
  qtype :: question_type
  questionText :: string
  codeSnippet :: "string option"
  options :: "Option_t list"
  correctAnswers :: "string list"
  explanation :: string

record ExamSet =
  eid :: int
  ename :: string
  edescription :: string
  questions :: "Question list"
  durationMinutes :: int

text \<open>
  The six \<^verbatim>\<open>useState\<close> cells of the component \<^verbatim>\<open>App\<close>. \<^verbatim>\<open>userAnswers\<close> is a
  \<^verbatim>\<open>Record<number, string[]>\<close>: a map from question id to the array of selected option
  ids, in selection order.
\<close>

datatype view_t = Home | Exam | Result

record app_state =
  view :: view_t
  currentExam :: "ExamSet option"
  currentQuestionIdx :: int
  userAnswers :: "int \<rightharpoonup> string list"
  timeElapsed :: int
  isReviewMode :: bool

definition initial_state :: app_state where
  "initial_state =
     \<lparr>view = Home, currentExam = None, currentQuestionIdx = 0,
      userAnswers = Map.empty, timeElapsed = 0, isReviewMode = False\<rparr>"

section \<open>JavaScript primitives used by the source\<close>

text \<open>\<^verbatim>\<open>Number.prototype.toString\<close> on an integer: decimal digits, a minus sign when negative.\<close>

definition digit_char :: "nat \<Rightarrow> char" where
  "digit_char d =
     (if d = 0 then CHR ''0'' else if d = 1 then CHR ''1'' else if d = 2 then CHR ''2''
      else if d = 3 then CHR ''3'' else if d = 4 then CHR ''4'' else if d = 5 then CHR ''5''
      else if d = 6 then CHR ''6'' else if d = 7 then CHR ''7'' else if d = 8 then CHR ''8''
      else CHR ''9'')"

fun digits_of :: "nat \<Rightarrow> string" where
  "digits_of n =
     (if n < 10 then [digit_char n] else digits_of (n div 10) @ [digit_char (n mod 10)])"

declare digits_of.simps [simp del]

definition toString :: "int \<Rightarrow> string" where
  "toString n = (if n < 0 then CHR ''-'' # digits_of (nat (- n)) else digits_of (nat n))"

text \<open>\<^verbatim>\<open>String.prototype.padStart(n, c)\<close> with a one-character filler.\<close>

definition padStart :: "nat \<Rightarrow> char \<Rightarrow> string \<Rightarrow> string" where
  "padStart n c s = replicate (n - length s) c @ s"

text \<open>
  \<^verbatim>\<open>a % b\<close> on integers (with \<open>b \<noteq> 0\<close>) is the remainder of the division truncated
  towards zero: it has the sign of the dividend. \<^verbatim>\<open>Math.floor(a / b)\<close> for a positive
  divisor is the floored quotient (\<open>div\<close> on \<open>int\<close>).
\<close>

definition js_rem :: "int \<Rightarrow> int \<Rightarrow> int" where
  "js_rem a b = sgn a * (\<bar>a\<bar> mod \<bar>b\<bar>)"

section \<open>\<^verbatim>\<open>formatTime\<close>\<close>

definition formatTime :: "int \<Rightarrow> string" where
  "formatTime seconds =
     (let h = seconds div 3600;
          m = js_rem seconds 3600 div 60;
          s = js_rem seconds 60
      in if h > 0
         then toString h @ '':'' @ padStart 2 (CHR ''0'') (toString m) @ '':'' @
              padStart 2 (CHR ''0'') (toString s)
         else padStart 2 (CHR ''0'') (toString m) @ '':'' @
              padStart 2 (CHR ''0'') (toString s))"

section \<open>Actions of the component\<close>

definition handleStartExam :: "ExamSet \<Rightarrow> app_state \<Rightarrow> app_state" where
  "handleStartExam exam st =
     st\<lparr>currentExam := Some exam, currentQuestionIdx := 0, userAnswers := Map.empty,
        timeElapsed := 0, isReviewMode := False, view := Exam\<rparr>"

text \<open>
  \<^verbatim>\<open>prev[qId] || []\<close>: an array is truthy even when empty, so the default is taken only
  for an absent key.
\<close>

definition selected :: "(int \<rightharpoonup> string list) \<Rightarrow> int \<Rightarrow> string list" where
  "selected prev qId = (case prev qId of None \<Rightarrow> [] | Some xs \<Rightarrow> xs)"

definition updateAnswers ::
  "int \<Rightarrow> string \<Rightarrow> question_type \<Rightarrow> (int \<rightharpoonup> string list) \<Rightarrow> (int \<rightharpoonup> string list)" where
  "updateAnswers qId optionId ty prev =
     (let currentSelected = selected prev qId
      in if ty = Single then prev(qId \<mapsto> [optionId])
         else if optionId \<in> set currentSelected then
           (let newSelection = filter (\<lambda>i. i \<noteq> optionId) currentSelected
            in if length newSelection = 0 then prev(qId := None)
               else prev(qId \<mapsto> newSelection))
         else prev(qId \<mapsto> currentSelected @ [optionId]))"

definition handleOptionSelect :: "int \<Rightarrow> string \<Rightarrow> question_type \<Rightarrow> app_state \<Rightarrow> app_state" where
  "handleOptionSelect qId optionId ty st =
     (if isReviewMode st then st
      else st\<lparr>userAnswers := updateAnswers qId optionId ty (userAnswers st)\<rparr>)"

definition handleNext :: "app_state \<Rightarrow> app_state" where
  "handleNext st =
     (case currentExam st of
        None \<Rightarrow> st
      | Some exam \<Rightarrow>
          if currentQuestionIdx st < int (length (questions exam)) - 1
          then st\<lparr>currentQuestionIdx := currentQuestionIdx st + 1\<rparr> else st)"

definition handlePrev :: "app_state \<Rightarrow> app_state" where
  "handlePrev st =
     (if currentQuestionIdx st > 0
      then st\<lparr>currentQuestionIdx := currentQuestionIdx st - 1\<rparr> else st)"

text \<open>
  \<^verbatim>\<open>window.confirm\<close> is the confirmation callback: it receives the message and returns the
  user's decision. \<^verbatim>\<open>Object.keys(userAnswers).length\<close> is the number of keys of the map.
\<close>

definition partialMessage :: "nat \<Rightarrow> nat \<Rightarrow> string" where
  "partialMessage answeredCount totalQ =
     ''You have answered '' @ toString (int answeredCount) @ ''/'' @ toString (int totalQ) @
     '' questions. Submit now?''"

definition fullMessage :: string where
  "fullMessage = ''Confirm submission?''"

definition submitMessage :: "app_state \<Rightarrow> string option" where
  "submitMessage st =
     (case currentExam st of
        None \<Rightarrow> None
      | Some exam \<Rightarrow>
          (let answeredCount = card (dom (userAnswers st));
               totalQ = length (questions exam)
           in if answeredCount < totalQ then Some (partialMessage answeredCount totalQ)
              else Some fullMessage))"

definition handleSubmitExam :: "(string \<Rightarrow> bool) \<Rightarrow> app_state \<Rightarrow> app_state" where
  "handleSubmitExam confirm st =
     (case submitMessage st of
        Some msg \<Rightarrow> if \<not> confirm msg then st else st\<lparr>view := Result, isReviewMode := True\<rparr>
      | None \<Rightarrow> st\<lparr>view := Result, isReviewMode := True\<rparr>)"

definition handleReviewQuestion :: "int \<Rightarrow> app_state \<Rightarrow> app_state" where
  "handleReviewQuestion index st = st\<lparr>currentQuestionIdx := index, view := Exam\<rparr>"

definition handleGoHome :: "app_state \<Rightarrow> app_state" where
  "handleGoHome st = st\<lparr>view := Home, currentExam := None\<rparr>"

text \<open>
  The timer effect: an interval exists exactly while \<^verbatim>\<open>view === 'exam' && !isReviewMode\<close>
  (the effect's cleanup clears it whenever either changes), and its callback is
  \<^verbatim>\<open>setTimeElapsed(prev => prev + 1)\<close>. One delivered callback is one \<open>timerTick\<close>; when no
  interval exists nothing is delivered and the state stays as it is.
\<close>

definition timerActive :: "app_state \<Rightarrow> bool" where
  "timerActive st = (view st = Exam \<and> \<not> isReviewMode st)"

definition timerTick :: "app_state \<Rightarrow> app_state" where
  "timerTick st = (if timerActive st then st\<lparr>timeElapsed := timeElapsed st + 1\<rparr> else st)"

section \<open>\<^verbatim>\<open>getQuestionStatus\<close>\<close>

record question_status =
  isCorrect :: bool
  isSkipped :: bool
  isAnswered :: bool

definition getQuestionStatus :: "(int \<rightharpoonup> string list) \<Rightarrow> Question \<Rightarrow> question_status" where
  "getQuestionStatus answers q =
     (let userAnswer = selected answers (qid q);
          correct = (length (correctAnswers q) = length userAnswer \<and>
                     list_all (\<lambda>ans. ans \<in> set userAnswer) (correctAnswers q));
          skipped = (length userAnswer = 0)
      in \<lparr>isCorrect = correct, isSkipped = skipped, isAnswered = \<not> skipped\<rparr>)"

section \<open>Views of the state used to state the properties\<close>

text \<open>
  The answer set of a question is the set of the stored array's elements; \<open>answerSets\<close>
  reads the whole map that way (an absent key stays absent).
\<close>

definition answerSets :: "(int \<rightharpoonup> string list) \<Rightarrow> (int \<rightharpoonup> string set)" where
  "answerSets m = (\<lambda>k. map_option set (m k))"

text \<open>
  The \<^verbatim>\<open>onClick\<close> of an option button:
  \<^verbatim>\<open>handleOptionSelect(currentQ.id, option.id, currentQ.type)\<close>. A sequence of clicks is a
  list of (question shown, option clicked).
\<close>

definition clickOption :: "Question \<Rightarrow> string \<Rightarrow> app_state \<Rightarrow> app_state" where
  "clickOption currentQ optionId st =
     handleOptionSelect (qid currentQ) optionId (qtype currentQ) st"

fun clickAll :: "(Question \<times> string) list \<Rightarrow> app_state \<Rightarrow> app_state" where
  "clickAll [] st = st"
| "clickAll ((q, optionId) # cs) st = clickAll cs (clickOption q optionId st)"

text \<open>
  The events the component reacts to, one per handler and one for a delivered timer
  callback, and the state after a list of events.
\<close>

datatype event =
    StartExam ExamSet
  | OptionSelect int string question_type
  | Next
  | Prev
  | SubmitExam "string \<Rightarrow> bool"
  | ReviewQuestion int
  | GoHome
  | TimerTick

fun dispatch :: "event \<Rightarrow> app_state \<Rightarrow> app_state" where
  "dispatch (StartExam exam) st = handleStartExam exam st"
| "dispatch (OptionSelect qId optionId ty) st = handleOptionSelect qId optionId ty st"
| "dispatch Next st = handleNext st"
| "dispatch Prev st = handlePrev st"
| "dispatch (SubmitExam confirm) st = handleSubmitExam confirm st"
| "dispatch (ReviewQuestion index) st = handleReviewQuestion index st"
| "dispatch GoHome st = handleGoHome st"
| "dispatch TimerTick st = timerTick st"

fun run :: "event list \<Rightarrow> app_state \<Rightarrow> app_state" where
  "run [] st = st"
| "run (e # es) st = run es (dispatch e st)"

text \<open>A map of stored arrays is well formed when no array is empty or repeats an option id.\<close>

definition answers_wf :: "(int \<rightharpoonup> string list) \<Rightarrow> bool" where
  "answers_wf m = (\<forall>k xs. m k = Some xs \<longrightarrow> xs \<noteq> [] \<and> distinct xs)"

text \<open>
  The question the exam view renders: \<^verbatim>\<open>currentExam.questions[currentQuestionIdx]\<close>, which
  is \<^verbatim>\<open>undefined\<close> (here \<open>None\<close>) for an index outside the array.
\<close>

definition currentQ :: "app_state \<Rightarrow> Question option" where
  "currentQ st =
     (case currentExam st of
        None \<Rightarrow> None
      | Some exam \<Rightarrow>
          if 0 \<le> currentQuestionIdx st \<and> currentQuestionIdx st < int (length (questions exam))
          then Some (questions exam ! nat (currentQuestionIdx st)) else None)"

subsection \<open>A two-question exam for concrete runs\<close>

definition exampleQ1 :: Question where
  "exampleQ1 =
     \<lparr>qid = 1, qtype = Single, questionText = ''Q1'', codeSnippet = None,
      options = [\<lparr>oid = ''A'', otext = ''a''\<rparr>, \<lparr>oid = ''B'', otext = ''b''\<rparr>],
      correctAnswers = [''B''], explanation = ''e1''\<rparr>"

definition exampleQ2 :: Question where
  "exampleQ2 =
     \<lparr>qid = 2, qtype = Multiple, questionText = ''Q2'', codeSnippet = None,
      options = [\<lparr>oid = ''A'', otext = ''a''\<rparr>, \<lparr>oid = ''B'', otext = ''b''\<rparr>,
                 \<lparr>oid = ''C'', otext = ''c''\<rparr>],
      correctAnswers = [''A'', ''C''], explanation = ''e2''\<rparr>"

definition exampleExam :: ExamSet where
  "exampleExam =
     \<lparr>eid = 1, ename = ''Set 1'', edescription = ''two questions'',
      questions = [exampleQ1, exampleQ2], durationMinutes = 10\<rparr>"

definition exampleStart :: app_state where
  "exampleStart = handleStartExam exampleExam initial_state"

section \<open>The result dashboard\<close>

subsection \<open>Numbers\<close>

text \<open>
  \<^verbatim>\<open>correctCount / totalQ\<close> and \<^verbatim>\<open>... * 100\<close> are operations on IEEE 754 doubles: the exact
  quotient or product is rounded to the nearest double, ties to the even significand.
  A finite double is held as the rational number it denotes. Only what the score needs
  is modelled: operands that are not negative, the results \<^verbatim>\<open>NaN\<close> (from \<^verbatim>\<open>0 / 0\<close>) and
  \<^verbatim>\<open>Infinity\<close>.
\<close>

datatype js_number = NaN | PosInf | Num rat

text \<open>The number of binary digits of a positive integer.\<close>

function bits :: "int \<Rightarrow> nat" where
  "bits n = (if n \<le> 0 then 0 else Suc (bits (n div 2)))"
  by pat_completeness auto
termination
  by (relation "measure nat") auto

declare bits.simps [simp del]

definition pow2 :: "int \<Rightarrow> rat" where
  "pow2 e = (if 0 \<le> e then 2 ^ nat e else 1 / 2 ^ nat (- e))"

text \<open>The binary exponent of a positive rational \<open>x\<close>: the \<open>d\<close> with \<open>2^d \<le> x < 2^(d+1)\<close>.\<close>

definition floorlog2 :: "rat \<Rightarrow> int" where
  "floorlog2 x =
     (let (p, q) = quotient_of x;
          d = int (bits p) - int (bits q)
      in if pow2 d \<le> x then d else d - 1)"

definition round_half_even :: "rat \<Rightarrow> int" where
  "round_half_even x =
     (let f = \<lfloor>x\<rfloor>; r = x - of_int f
      in if r < 1 / 2 then f else if 1 / 2 < r then f + 1 else if even f then f else f + 1)"

text \<open>
  Rounding a non-negative rational to a double: 53 significant bits, the exponent of the
  last bit not below -1074 (subnormal numbers), overflow to \<^verbatim>\<open>Infinity\<close> from \<open>2^1024\<close> on.
\<close>

definition ulp_exp :: "rat \<Rightarrow> int" where
  "ulp_exp x = max (floorlog2 x - 52) (- 1074)"

definition round_double :: "rat \<Rightarrow> js_number" where
  "round_double x =
     (if x = 0 then Num 0
      else (let e = ulp_exp x;
                y = of_int (round_half_even (x / pow2 e)) * pow2 e
            in if pow2 1024 \<le> y then PosInf else Num y))"

text \<open>\<^verbatim>\<open>a / b\<close> for two array lengths, \<^verbatim>\<open>x * k\<close> for a number and a natural constant.\<close>

definition js_div :: "nat \<Rightarrow> nat \<Rightarrow> js_number" where
  "js_div a b =
     (if b = 0 then (if a = 0 then NaN else PosInf) else round_double (of_nat a / of_nat b))"

definition js_times :: "js_number \<Rightarrow> nat \<Rightarrow> js_number" where
  "js_times x k =
     (case x of
        NaN \<Rightarrow> NaN
      | PosInf \<Rightarrow> (if k = 0 then NaN else PosInf)
      | Num r \<Rightarrow> round_double (r * of_nat k))"

text \<open>
  \<^verbatim>\<open>Math.round\<close>: the integer closest to the argument, the larger one when two are
  equally close.
\<close>

definition Math_round :: "js_number \<Rightarrow> js_number" where
  "Math_round x =
     (case x of NaN \<Rightarrow> NaN | PosInf \<Rightarrow> PosInf | Num r \<Rightarrow> Num (of_int \<lfloor>r + 1 / 2\<rfloor>))"

subsection \<open>The score\<close>

text \<open>
  The branch \<^verbatim>\<open>if (view === 'result' && currentExam)\<close> of the render: the three values
  it computes before it builds the page.
\<close>

record result_dashboard =
  totalQ :: nat
  correctCount :: nat
  score :: js_number

definition resultDashboard :: "app_state \<Rightarrow> result_dashboard option" where
  "resultDashboard st =
     (if view st = Result then
        (case currentExam st of
           None \<Rightarrow> None
         | Some exam \<Rightarrow>
             (let total_q = length (questions exam);
                  correct_count =
                    length (filter (\<lambda>q. isCorrect (getQuestionStatus (userAnswers st) q))
                      (questions exam));
                  score_v = Math_round (js_times (js_div correct_count total_q) 100)
              in Some \<lparr>totalQ = total_q, correctCount = correct_count, score = score_v\<rparr>))
      else None)"

subsection \<open>A forty-question exam with twenty-three correct answers\<close>

definition fortyQuestions :: "Question list" where
  "fortyQuestions = map (\<lambda>i. exampleQ1\<lparr>qid := int i\<rparr>) [1..<41]"

definition fortyExam :: ExamSet where
  "fortyExam =
     \<lparr>eid = 2, ename = ''Set 2'', edescription = ''forty questions'',
      questions = fortyQuestions, durationMinutes = 60\<rparr>"

definition fortySubmitted :: app_state where
  "fortySubmitted =
     handleSubmitExam (\<lambda>msg. True)
       (clickAll (map (\<lambda>q. (q, ''B'')) (take 23 fortyQuestions))
          (handleStartExam fortyExam initial_state))"

section \<open>The render and the handler calls it offers\<close>

text \<open>
  What the body of \<^verbatim>\<open>App\<close> returns for a state, in the order of its branches: the home
  page; the result dashboard when \<^verbatim>\<open>view === 'result' && currentExam\<close>; \<^verbatim>\<open>null\<close> without an
  exam; otherwise the exam page of \<^verbatim>\<open>currentQ\<close>. The exam branch reads \<^verbatim>\<open>currentQ.id\<close> first,
  which throws a \<^verbatim>\<open>TypeError\<close> when \<^verbatim>\<open>currentQ\<close> is \<^verbatim>\<open>undefined\<close>.
\<close>

datatype js_error = TypeError

datatype page = HomePage | ResultPage result_dashboard | NoPage | ExamPage Question

definition render :: "app_state \<Rightarrow> js_error + page" where
  "render st =
     (if view st = Home then Inr HomePage
      else (case resultDashboard st of
              Some d \<Rightarrow> Inr (ResultPage d)
            | None \<Rightarrow>
                (case currentExam st of
                   None \<Rightarrow> Inr NoPage
                 | Some exam \<Rightarrow>
                     (case currentQ st of
                        None \<Rightarrow> Inl TypeError
                      | Some q \<Rightarrow> Inr (ExamPage q)))))"

text \<open>
  The handler calls a rendered page can make, read off the \<^verbatim>\<open>onClick\<close> and \<^verbatim>\<open>disabled\<close>
  attributes of its buttons. The exam page: an option button calls
  \<^verbatim>\<open>handleOptionSelect(currentQ.id, option.id, currentQ.type)\<close> and is disabled in review
  mode; Previous is disabled at index 0 and Next at the last index; Submit exists outside
  review mode; a palette button exists for each index of \<^verbatim>\<open>currentExam.questions\<close> and
  calls \<^verbatim>\<open>handleReviewQuestion(idx)\<close>; the back button (and Finish Review) call
  \<^verbatim>\<open>handleGoHome\<close>; the interval ticks while the timer is active.
\<close>

fun examPageOffers :: "app_state \<Rightarrow> Question \<Rightarrow> event \<Rightarrow> bool" where
  "examPageOffers st q (StartExam exam) = False"
| "examPageOffers st q (OptionSelect qId optionId ty) =
     (\<not> isReviewMode st \<and> qId = qid q \<and> ty = qtype q \<and> optionId \<in> set (map oid (options q)))"
| "examPageOffers st q Next =
     (case currentExam st of
        None \<Rightarrow> False
      | Some exam \<Rightarrow> currentQuestionIdx st \<noteq> int (length (questions exam)) - 1)"
| "examPageOffers st q Prev = (currentQuestionIdx st \<noteq> 0)"
| "examPageOffers st q (SubmitExam confirm) = (\<not> isReviewMode st)"
| "examPageOffers st q (ReviewQuestion index) =
     (case currentExam st of
        None \<Rightarrow> False
      | Some exam \<Rightarrow> 0 \<le> index \<and> index < int (length (questions exam)))"
| "examPageOffers st q GoHome = True"
| "examPageOffers st q TimerTick = timerActive st"

text \<open>
  The home page has one button per exam of \<^verbatim>\<open>EXAM_DATA\<close> (the content of
  \<^verbatim>\<open>questions.json\<close>, here the parameter \<open>examData\<close>), the result dashboard has Back to Home and
  Review Answers, which calls \<^verbatim>\<open>handleReviewQuestion(0)\<close>; on neither page is the view the exam
  view, so no interval exists. A render that returned \<^verbatim>\<open>null\<close> shows no button, but its timer
  effect still runs. A render that threw leaves nothing mounted.
\<close>

fun homePageOffers :: "ExamSet list \<Rightarrow> event \<Rightarrow> bool" where
  "homePageOffers examData (StartExam exam) = (exam \<in> set examData)"
| "homePageOffers examData e = False"

fun resultPageOffers :: "event \<Rightarrow> bool" where
  "resultPageOffers GoHome = True"
| "resultPageOffers (ReviewQuestion index) = (index = 0)"
| "resultPageOffers e = False"

fun noPageOffers :: "app_state \<Rightarrow> event \<Rightarrow> bool" where
  "noPageOffers st TimerTick = timerActive st"
| "noPageOffers st e = False"

definition offered :: "ExamSet list \<Rightarrow> app_state \<Rightarrow> event \<Rightarrow> bool" where
  "offered examData st e =
     (case render st of
        Inl err \<Rightarrow> False
      | Inr HomePage \<Rightarrow> homePageOffers examData e
      | Inr (ResultPage d) \<Rightarrow> resultPageOffers e
      | Inr NoPage \<Rightarrow> noPageOffers st e
      | Inr (ExamPage q) \<Rightarrow> examPageOffers st q e)"

text \<open>A list of events is a run through the user interface when each event is offered by
  the page rendered for the state it arrives in.\<close>

fun offeredAll :: "ExamSet list \<Rightarrow> event list \<Rightarrow> app_state \<Rightarrow> bool" where
  "offeredAll examData [] st = True"
| "offeredAll examData (e # es) st =
     (offered examData st e \<and> offeredAll examData es (dispatch e st))"

section \<open>Properties\<close>

subsection \<open>Time formatting\<close>

lemma digits_of_small: "n < 10 \<Longrightarrow> digits_of n = [digit_char n]"
  by (simp add: digits_of.simps)

lemma digits_of_two:
  "10 \<le> n \<Longrightarrow> n < 100 \<Longrightarrow> digits_of n = [digit_char (n div 10), digit_char (n mod 10)]"
  by (subst digits_of.simps) (simp add: digits_of_small)

lemma padStart_two_digits:
  "n < 100 \<Longrightarrow>
   padStart 2 (CHR ''0'') (toString (int n)) = [digit_char (n div 10), digit_char (n mod 10)]"
proof (cases "n < 10")
  case True
  then show ?thesis
    by (simp add: padStart_def toString_def digits_of_small digit_char_def)
next
  case False
  moreover assume "n < 100"
  ultimately show ?thesis
    by (simp add: padStart_def toString_def digits_of_two)
qed

lemma js_rem_nat: "js_rem (int a) (int b) = int (a mod b)"
  by (simp add: js_rem_def sgn_if zmod_int)

text \<open>
  \<open>digits_of\<close> is the decimal numeral: reading the digits back gives the number.
\<close>

definition digit_value :: "char \<Rightarrow> nat" where
  "digit_value c = of_char c - 48"

lemma digit_value_digit_char: "d < 10 \<Longrightarrow> digit_value (digit_char d) = d"
  by (simp add: digit_char_def digit_value_def)

lemma digits_of_value: "foldl (\<lambda>acc c. 10 * acc + digit_value c) 0 (digits_of n) = n"
proof (induction n rule: digits_of.induct)
  case (1 n)
  show ?case
  proof (cases "n < 10")
    case True
    then show ?thesis by (simp add: digits_of_small digit_value_digit_char)
  next
    case False
    then show ?thesis
      using "1.IH" by (subst digits_of.simps) (simp add: digit_value_digit_char)
  qed
qed

text \<open>
  C8. \<^verbatim>\<open>formatTime\<close> of a number of elapsed seconds \<open>n\<close>: from one hour on, the decimal
  numeral of the hours, a colon, the minutes of the hour as two digits, a colon, the
  seconds as two digits (\<^verbatim>\<open>H:MM:SS\<close>); below one hour, the minutes as two digits, a colon,
  the seconds as two digits (\<^verbatim>\<open>MM:SS\<close>). \<^verbatim>\<open>formatTime(65)\<close> is \<^verbatim>\<open>01:05\<close> and
  \<^verbatim>\<open>formatTime(3661)\<close> is \<^verbatim>\<open>1:01:01\<close>.
\<close>

theorem formatTime_layout:
  "formatTime (int n) =
     (if 3600 \<le> n
      then digits_of (n div 3600) @
           [CHR '':'', digit_char (n mod 3600 div 60 div 10), digit_char (n mod 3600 div 60 mod 10),
            CHR '':'', digit_char (n mod 60 div 10), digit_char (n mod 60 mod 10)]
      else [digit_char (n div 60 div 10), digit_char (n div 60 mod 10),
            CHR '':'', digit_char (n mod 60 div 10), digit_char (n mod 60 mod 10)])
   \<and> formatTime 65 = ''01:05'' \<and> formatTime 3661 = ''1:01:01''"
proof -
  have r1: "js_rem (int n) 3600 = int (n mod 3600)" using js_rem_nat [of n 3600] by simp
  have r2: "js_rem (int n) 60 = int (n mod 60)" using js_rem_nat [of n 60] by simp
  have d1: "int n div 3600 = int (n div 3600)" by (simp add: zdiv_int)
  have d2: "int (n mod 3600) div 60 = int (n mod 3600 div 60)" by (simp add: zdiv_int)
  have m: "n mod 3600 div 60 < 100" by (simp add: less_mult_imp_div_less)
  have s: "n mod 60 < 100" by (rule less_trans [OF mod_less_divisor]) simp_all
  have h: "(0 < int (n div 3600)) = (3600 \<le> n)" by (simp add: div_greater_zero_iff)
  have small: "\<not> 3600 \<le> n \<Longrightarrow> n mod 3600 = n" by simp
  have general: "formatTime (int n) =
     (if 3600 \<le> n
      then digits_of (n div 3600) @
           [CHR '':'', digit_char (n mod 3600 div 60 div 10), digit_char (n mod 3600 div 60 mod 10),
            CHR '':'', digit_char (n mod 60 div 10), digit_char (n mod 60 mod 10)]
      else [digit_char (n div 60 div 10), digit_char (n div 60 mod 10),
            CHR '':'', digit_char (n mod 60 div 10), digit_char (n mod 60 mod 10)])"
    unfolding formatTime_def Let_def r1 r2 d1 d2 h
      padStart_two_digits [OF m] padStart_two_digits [OF s]
    by (auto simp: toString_def small)
  have e1: "formatTime 65 = ''01:05''"
    by (simp add: formatTime_def js_rem_def padStart_def toString_def digits_of.simps
        digit_char_def)
  have e2: "formatTime 3661 = ''1:01:01''"
    by (simp add: formatTime_def js_rem_def padStart_def toString_def digits_of.simps
        digit_char_def)
  from general e1 e2 show ?thesis by (intro conjI)
qed

subsection \<open>Selecting options\<close>

lemma selected_upd [simp]:
  "selected (m(k \<mapsto> xs)) k = xs"
  "selected (m(k := None)) k = []"
  "j \<noteq> k \<Longrightarrow> selected (m(k := v)) j = selected m j"
  by (simp_all add: selected_def)

lemma updateAnswers_other: "k \<noteq> qId \<Longrightarrow> updateAnswers qId optionId ty m k = m k"
  by (simp add: updateAnswers_def Let_def)

lemma selected_updateAnswers_other:
  "k \<noteq> qId \<Longrightarrow> selected (updateAnswers qId optionId ty m) k = selected m k"
  by (simp add: selected_def updateAnswers_other)

lemma selected_updateAnswers_Single:
  "selected (updateAnswers qId optionId Single m) qId = [optionId]"
  by (simp add: updateAnswers_def)

lemma selected_updateAnswers_Multiple:
  "selected (updateAnswers qId optionId Multiple m) qId =
     (if optionId \<in> set (selected m qId) then filter (\<lambda>i. i \<noteq> optionId) (selected m qId)
      else selected m qId @ [optionId])"
  by (simp add: updateAnswers_def Let_def)

lemma updateAnswers_nonempty: "updateAnswers qId optionId ty m qId \<noteq> Some []"
  by (cases ty) (simp_all add: updateAnswers_def Let_def)

lemma updateAnswers_distinct:
  "distinct (selected m k) \<Longrightarrow> distinct (selected (updateAnswers qId optionId ty m) k)"
  by (cases "k = qId"; cases ty)
     (simp_all add: selected_updateAnswers_other selected_updateAnswers_Single
        selected_updateAnswers_Multiple)

lemma toggle_set:
  "set (selected (updateAnswers qId optionId Multiple m) qId) =
     (if optionId \<in> set (selected m qId) then set (selected m qId) - {optionId}
      else insert optionId (set (selected m qId)))"
  by (auto simp: selected_updateAnswers_Multiple)

lemma toggle_empty_removed:
  "set (selected (updateAnswers qId optionId Multiple m) qId) = {} \<Longrightarrow>
   updateAnswers qId optionId Multiple m qId = None"
  using updateAnswers_nonempty [of qId optionId Multiple m]
  by (cases "updateAnswers qId optionId Multiple m qId") (simp_all add: selected_def)

lemma toggle_twice_set:
  "set (selected (updateAnswers qId optionId Multiple (updateAnswers qId optionId Multiple m)) k)
   = set (selected m k)"
  by (cases "k = qId") (auto simp: selected_updateAnswers_other selected_updateAnswers_Multiple)

lemma answerSets_via_selected:
  "m k \<noteq> Some [] \<Longrightarrow>
   answerSets m k = (if set (selected m k) = {} then None else Some (set (selected m k)))"
  by (cases "m k") (simp_all add: answerSets_def selected_def)

lemma toggle_twice_answerSets:
  assumes "m qId \<noteq> Some []"
  shows "answerSets (updateAnswers qId optionId Multiple (updateAnswers qId optionId Multiple m))
         = answerSets m"
proof (rule ext)
  fix k
  let ?m2 = "updateAnswers qId optionId Multiple (updateAnswers qId optionId Multiple m)"
  show "answerSets ?m2 k = answerSets m k"
  proof (cases "k = qId")
    case True
    have n2: "?m2 k \<noteq> Some []" using True by (simp add: updateAnswers_nonempty)
    have n1: "m k \<noteq> Some []" using True assms by simp
    show ?thesis
      by (simp only: answerSets_via_selected [of ?m2 k, OF n2]
          answerSets_via_selected [of m k, OF n1] toggle_twice_set)
  next
    case False
    then show ?thesis by (simp add: answerSets_def updateAnswers_other)
  qed
qed

lemma toggle_twice_absent:
  assumes "optionId \<notin> set (selected m qId)" and "m qId \<noteq> Some []"
  shows "updateAnswers qId optionId Multiple (updateAnswers qId optionId Multiple m) = m"
proof -
  let ?cur = "selected m qId"
  have first: "updateAnswers qId optionId Multiple m = m(qId \<mapsto> ?cur @ [optionId])"
    using assms(1) by (simp add: updateAnswers_def Let_def)
  have keep: "filter (\<lambda>i. i \<noteq> optionId) (?cur @ [optionId]) = ?cur"
    using assms(1) by (auto simp: filter_id_conv)
  show ?thesis
  proof (cases "m qId")
    case None
    then have "?cur = []" by (simp add: selected_def)
    then show ?thesis using None by (simp add: first updateAnswers_def Let_def fun_upd_idem)
  next
    case (Some xs)
    then have "?cur = xs" "xs \<noteq> []" using assms(2) by (simp_all add: selected_def)
    then show ?thesis using Some keep
      by (simp add: first updateAnswers_def Let_def fun_upd_idem)
  qed
qed

text \<open>
  C5. In review mode \<^verbatim>\<open>handleOptionSelect\<close> returns at once: for every question id, option
  id and question type the state, and with it the answers map, is unchanged.
\<close>

theorem handleOptionSelect_review_noop:
  "isReviewMode st \<Longrightarrow>
   handleOptionSelect qId optionId ty st = st \<and>
   userAnswers (handleOptionSelect qId optionId ty st) = userAnswers st"
  by (simp add: handleOptionSelect_def)

theorem handleOptionSelect_review_noop_witness:
  "isReviewMode (exampleStart\<lparr>isReviewMode := True\<rparr>) \<and>
   handleOptionSelect 2 ''A'' Multiple (exampleStart\<lparr>isReviewMode := True\<rparr>) =
     exampleStart\<lparr>isReviewMode := True\<rparr> \<and>
   userAnswers (handleOptionSelect 2 ''A'' Multiple (exampleStart\<lparr>isReviewMode := True\<rparr>)) =
     userAnswers (exampleStart\<lparr>isReviewMode := True\<rparr>)"
  using handleOptionSelect_review_noop [of "exampleStart\<lparr>isReviewMode := True\<rparr>" 2 "''A''" Multiple]
  by simp

text \<open>
  C3. Outside review mode, \<^verbatim>\<open>handleOptionSelect\<close> on a question of type \<^verbatim>\<open>multiple\<close>
  toggles the membership of the option in the question's answer set and touches nothing
  else; when the answer set becomes empty the key of the question is removed from the
  map; and toggling the same option twice in a row gives every question its previous
  answer set back, and the whole map from question ids to answer sets when the map did
  not hold an empty array for the question (no reachable state does, see
  \<open>reachable_answers_wf\<close>). Selecting an option that was not selected and deselecting
  it again even gives the very state back; deselecting and reselecting moves the option
  to the end of the stored array, which holds the same set.
\<close>

theorem multiple_toggle:
  assumes "\<not> isReviewMode st"
  shows "set (selected (userAnswers (handleOptionSelect qId optionId Multiple st)) qId) =
           (if optionId \<in> set (selected (userAnswers st) qId)
            then set (selected (userAnswers st) qId) - {optionId}
            else insert optionId (set (selected (userAnswers st) qId)))
       \<and> (set (selected (userAnswers (handleOptionSelect qId optionId Multiple st)) qId) = {}
            \<longrightarrow> userAnswers (handleOptionSelect qId optionId Multiple st) qId = None)
       \<and> (\<forall>k. k \<noteq> qId \<longrightarrow>
            userAnswers (handleOptionSelect qId optionId Multiple st) k = userAnswers st k)
       \<and> handleOptionSelect qId optionId Multiple st =
            st\<lparr>userAnswers := userAnswers (handleOptionSelect qId optionId Multiple st)\<rparr>
       \<and> (\<forall>k. set (selected (userAnswers (handleOptionSelect qId optionId Multiple
                   (handleOptionSelect qId optionId Multiple st))) k) =
                set (selected (userAnswers st) k))
       \<and> (userAnswers st qId \<noteq> Some [] \<longrightarrow>
            answerSets (userAnswers (handleOptionSelect qId optionId Multiple
                   (handleOptionSelect qId optionId Multiple st))) = answerSets (userAnswers st))
       \<and> (userAnswers st qId \<noteq> Some [] \<and> optionId \<notin> set (selected (userAnswers st) qId) \<longrightarrow>
            handleOptionSelect qId optionId Multiple (handleOptionSelect qId optionId Multiple st) = st)"
proof -
  let ?m = "userAnswers st"
  have h1: "userAnswers (handleOptionSelect qId optionId Multiple st) =
            updateAnswers qId optionId Multiple ?m"
    using assms by (simp add: handleOptionSelect_def)
  have h2: "userAnswers (handleOptionSelect qId optionId Multiple
              (handleOptionSelect qId optionId Multiple st)) =
            updateAnswers qId optionId Multiple (updateAnswers qId optionId Multiple ?m)"
    using assms by (simp add: handleOptionSelect_def)
  have frame: "handleOptionSelect qId optionId Multiple st =
            st\<lparr>userAnswers := userAnswers (handleOptionSelect qId optionId Multiple st)\<rparr>"
    using assms by (simp add: handleOptionSelect_def)
  have toggles: "set (selected (userAnswers (handleOptionSelect qId optionId Multiple st)) qId) =
           (if optionId \<in> set (selected ?m qId) then set (selected ?m qId) - {optionId}
            else insert optionId (set (selected ?m qId)))"
    unfolding h1 by (rule toggle_set)
  have removed: "set (selected (userAnswers (handleOptionSelect qId optionId Multiple st)) qId) = {}
            \<longrightarrow> userAnswers (handleOptionSelect qId optionId Multiple st) qId = None"
    unfolding h1 by (rule impI) (rule toggle_empty_removed)
  have others: "\<forall>k. k \<noteq> qId \<longrightarrow>
            userAnswers (handleOptionSelect qId optionId Multiple st) k = ?m k"
    unfolding h1 by (simp add: updateAnswers_other)
  have twice_sets: "\<forall>k. set (selected (userAnswers (handleOptionSelect qId optionId Multiple
                   (handleOptionSelect qId optionId Multiple st))) k) = set (selected ?m k)"
    unfolding h2 by (simp add: toggle_twice_set)
  have twice_map: "?m qId \<noteq> Some [] \<longrightarrow>
            answerSets (userAnswers (handleOptionSelect qId optionId Multiple
                   (handleOptionSelect qId optionId Multiple st))) = answerSets ?m"
    unfolding h2 by (rule impI) (rule toggle_twice_answerSets)
  have twice_same: "?m qId \<noteq> Some [] \<and> optionId \<notin> set (selected ?m qId) \<longrightarrow>
            handleOptionSelect qId optionId Multiple (handleOptionSelect qId optionId Multiple st) = st"
    using assms by (simp add: handleOptionSelect_def toggle_twice_absent)
  from toggles removed others frame twice_sets twice_map twice_same show ?thesis
    by (intro conjI)
qed

theorem multiple_toggle_witness:
  "\<not> isReviewMode (exampleStart\<lparr>userAnswers := [2 \<mapsto> [''A'', ''C'']]\<rparr>)
   \<and> userAnswers (exampleStart\<lparr>userAnswers := [2 \<mapsto> [''A'', ''C'']]\<rparr>) 2 \<noteq> Some []
   \<and> set (selected (userAnswers (handleOptionSelect 2 ''A'' Multiple
          (exampleStart\<lparr>userAnswers := [2 \<mapsto> [''A'', ''C'']]\<rparr>))) 2) = {''C''}
   \<and> answerSets (userAnswers (handleOptionSelect 2 ''A'' Multiple (handleOptionSelect 2 ''A'' Multiple
          (exampleStart\<lparr>userAnswers := [2 \<mapsto> [''A'', ''C'']]\<rparr>)))) =
       answerSets (userAnswers (exampleStart\<lparr>userAnswers := [2 \<mapsto> [''A'', ''C'']]\<rparr>))
   \<and> userAnswers (handleOptionSelect 2 ''A'' Multiple (handleOptionSelect 2 ''A'' Multiple
          (exampleStart\<lparr>userAnswers := [2 \<mapsto> [''A'', ''C'']]\<rparr>))) 2 = Some [''C'', ''A'']"
proof -
  let ?st = "exampleStart\<lparr>userAnswers := [2 \<mapsto> [''A'', ''C'']]\<rparr>"
  have h1: "\<not> isReviewMode ?st"
    by (simp add: exampleStart_def handleStartExam_def initial_state_def)
  have h2: "userAnswers ?st 2 \<noteq> Some []" by simp
  have s: "selected (userAnswers ?st) 2 = [''A'', ''C'']" by (simp add: selected_def)
  have stored: "userAnswers (handleOptionSelect 2 ''A'' Multiple
      (handleOptionSelect 2 ''A'' Multiple ?st)) 2 = Some [''C'', ''A'']"
    by (simp add: handleOptionSelect_def updateAnswers_def exampleStart_def handleStartExam_def
        initial_state_def selected_def)
  note t = multiple_toggle [OF h1, of 2 "''A''"]
  have toggled: "set (selected (userAnswers (handleOptionSelect 2 ''A'' Multiple ?st)) 2) = {''C''}"
    using t [THEN conjunct1] s by auto
  have restored: "answerSets (userAnswers (handleOptionSelect 2 ''A'' Multiple
      (handleOptionSelect 2 ''A'' Multiple ?st))) = answerSets (userAnswers ?st)"
    by (rule mp [OF t [THEN conjunct2, THEN conjunct2, THEN conjunct2, THEN conjunct2,
          THEN conjunct2, THEN conjunct1] h2])
  from h1 h2 toggled restored stored show ?thesis by (intro conjI)
qed

text \<open>
  No handler ever stores an empty array, and none stores an array with a repeated option
  id: both hold of the empty map of \<^verbatim>\<open>handleStartExam\<close> and are kept by
  \<^verbatim>\<open>handleOptionSelect\<close>, the only handler that writes \<^verbatim>\<open>userAnswers\<close> otherwise.
\<close>

lemma handleStartExam_answers: "userAnswers (handleStartExam exam st) = Map.empty"
  by (simp add: handleStartExam_def)

lemma handleOptionSelect_no_empty_entry:
  assumes "\<forall>k. userAnswers st k \<noteq> Some []"
  shows "\<forall>k. userAnswers (handleOptionSelect qId optionId ty st) k \<noteq> Some []"
proof
  fix k
  show "userAnswers (handleOptionSelect qId optionId ty st) k \<noteq> Some []"
    using assms updateAnswers_nonempty [of qId optionId ty "userAnswers st"]
    by (cases "k = qId") (simp_all add: handleOptionSelect_def updateAnswers_other)
qed

lemma handleOptionSelect_selected_distinct:
  "distinct (selected (userAnswers st) k) \<Longrightarrow>
   distinct (selected (userAnswers (handleOptionSelect qId optionId ty st)) k)"
  by (simp add: handleOptionSelect_def updateAnswers_distinct)

subsection \<open>Stored arrays in reachable states\<close>

lemma dispatch_answers:
  "userAnswers (dispatch e st) = userAnswers st \<or>
   userAnswers (dispatch e st) = Map.empty \<or>
   (\<exists>qId optionId ty. userAnswers (dispatch e st) = updateAnswers qId optionId ty (userAnswers st))"
proof (cases e)
  case (OptionSelect qId optionId ty)
  then show ?thesis by (auto simp: handleOptionSelect_def)
next
  case (SubmitExam confirm)
  then show ?thesis by (simp add: handleSubmitExam_def split: option.split)
qed (simp_all add: handleStartExam_def handleNext_def handlePrev_def handleReviewQuestion_def
      handleGoHome_def timerTick_def split: option.split)

lemma updateAnswers_wf:
  assumes "answers_wf m"
  shows "answers_wf (updateAnswers qId optionId ty m)"
  unfolding answers_wf_def
proof (intro allI impI)
  fix k xs
  assume a: "updateAnswers qId optionId ty m k = Some xs"
  have "distinct (selected m k)"
    using assms by (cases "m k") (simp_all add: selected_def answers_wf_def)
  then have "distinct (selected (updateAnswers qId optionId ty m) k)"
    by (rule updateAnswers_distinct)
  then have d: "distinct xs" using a by (simp add: selected_def)
  have "xs \<noteq> []"
  proof (cases "k = qId")
    case True
    then show ?thesis using a updateAnswers_nonempty [of qId optionId ty m] by auto
  next
    case False
    then show ?thesis using a assms by (simp add: updateAnswers_other answers_wf_def)
  qed
  then show "xs \<noteq> [] \<and> distinct xs" using d by simp
qed

lemma dispatch_answers_wf:
  assumes "answers_wf (userAnswers st)"
  shows "answers_wf (userAnswers (dispatch e st))"
  using dispatch_answers [of e st]
proof (elim disjE exE)
  assume "userAnswers (dispatch e st) = userAnswers st"
  then show ?thesis using assms by simp
next
  assume "userAnswers (dispatch e st) = Map.empty"
  then show ?thesis by (simp add: answers_wf_def)
next
  fix qId optionId ty
  assume "userAnswers (dispatch e st) = updateAnswers qId optionId ty (userAnswers st)"
  then show ?thesis using updateAnswers_wf [OF assms] by simp
qed

text \<open>
  In every state reached from the initial one, whatever the events, each stored array is
  non-empty and has no repeated option id.
\<close>

lemma run_answers_wf:
  "answers_wf (userAnswers st) \<Longrightarrow> answers_wf (userAnswers (run es st))"
  by (induction es arbitrary: st) (simp_all add: dispatch_answers_wf)

lemma reachable_answers_wf:
  "userAnswers (run es initial_state) k = Some xs \<Longrightarrow> xs \<noteq> [] \<and> distinct xs"
proof -
  have "answers_wf (userAnswers initial_state)" by (simp add: initial_state_def answers_wf_def)
  then have "answers_wf (userAnswers (run es initial_state))" by (rule run_answers_wf)
  then show "userAnswers (run es initial_state) k = Some xs \<Longrightarrow> xs \<noteq> [] \<and> distinct xs"
    by (simp add: answers_wf_def)
qed

subsection \<open>Evaluating a question\<close>

lemma isCorrect_code:
  "isCorrect (getQuestionStatus answers q) =
     (length (correctAnswers q) = length (selected answers (qid q)) \<and>
      set (correctAnswers q) \<subseteq> set (selected answers (qid q)))"
  by (auto simp: getQuestionStatus_def Let_def list_all_iff)

lemma length_subset_distinct:
  assumes "distinct ca" "length ca = length a" "set ca \<subseteq> set a"
  shows "set a = set ca \<and> distinct a"
proof -
  have "card (set a) \<le> length a" by (rule card_length)
  moreover have "card (set ca) = length ca" using assms(1) by (rule distinct_card)
  moreover have "card (set ca) \<le> card (set a)" using assms(3) by (simp add: card_mono)
  ultimately have c: "card (set a) = length a" "card (set ca) = card (set a)"
    using assms(2) by simp_all
  have "set ca = set a" using assms(3) c(2) by (simp add: card_subset_eq)
  moreover have "distinct a" using c(1) by (simp add: card_distinct)
  ultimately show ?thesis by simp
qed

text \<open>
  For a question whose \<^verbatim>\<open>correctAnswers\<close> has no repeated id, the comparison of the code
  says "correct" exactly when the stored array has the same elements and no repeated id:
  on a stored array with a repetition it says "incorrect" even when the sets agree.
\<close>

lemma isCorrect_sets:
  assumes "distinct (correctAnswers q)"
  shows "isCorrect (getQuestionStatus answers q) =
     (set (selected answers (qid q)) = set (correctAnswers q) \<and>
      distinct (selected answers (qid q)))"
proof
  assume "isCorrect (getQuestionStatus answers q)"
  then show "set (selected answers (qid q)) = set (correctAnswers q) \<and>
      distinct (selected answers (qid q))"
    using length_subset_distinct [OF assms] by (simp add: isCorrect_code)
next
  assume a: "set (selected answers (qid q)) = set (correctAnswers q) \<and>
      distinct (selected answers (qid q))"
  then have "length (selected answers (qid q)) = length (correctAnswers q)"
    using assms by (metis distinct_card)
  then show "isCorrect (getQuestionStatus answers q)" using a by (simp add: isCorrect_code)
qed

lemma isCorrect_repeated_id:
  "\<not> isCorrect (getQuestionStatus [2 \<mapsto> [''A'', ''C'', ''A'']] exampleQ2) \<and>
   set (selected [2 \<mapsto> [''A'', ''C'', ''A'']] (qid exampleQ2)) = set (correctAnswers exampleQ2)"
  by (simp add: isCorrect_code exampleQ2_def insert_commute)

lemma isSkipped_code:
  "isSkipped (getQuestionStatus answers q) =
     (answers (qid q) = None \<or> answers (qid q) = Some [])"
  by (cases "answers (qid q)") (simp_all add: getQuestionStatus_def Let_def selected_def)

lemma isAnswered_code:
  "isAnswered (getQuestionStatus answers q) = (\<not> isSkipped (getQuestionStatus answers q))"
  by (simp add: getQuestionStatus_def Let_def)

text \<open>
  C1. For a question \<open>q\<close> (its \<^verbatim>\<open>correctAnswers\<close> a set: no repeated id) and the array stored
  for it (no repeated id, as in every reachable state), \<^verbatim>\<open>getQuestionStatus\<close> gives
  \<^verbatim>\<open>isSkipped\<close> exactly when the array is absent or empty, \<^verbatim>\<open>isAnswered\<close> as its negation,
  and \<^verbatim>\<open>isCorrect\<close> exactly when the array has the size of \<^verbatim>\<open>correctAnswers\<close> and holds each
  of its elements, which is exactly when the two are equal as sets; any other array
  without repetition that holds the same set (the same options selected in another
  order) gives the same \<^verbatim>\<open>isCorrect\<close>.
\<close>

theorem getQuestionStatus_evaluates:
  assumes "distinct (correctAnswers q)" and "distinct (selected answers (qid q))"
  shows "isSkipped (getQuestionStatus answers q) =
           (answers (qid q) = None \<or> answers (qid q) = Some [])
       \<and> isAnswered (getQuestionStatus answers q) = (\<not> isSkipped (getQuestionStatus answers q))
       \<and> isCorrect (getQuestionStatus answers q) =
           (length (selected answers (qid q)) = length (correctAnswers q) \<and>
            (\<forall>c \<in> set (correctAnswers q). c \<in> set (selected answers (qid q))))
       \<and> isCorrect (getQuestionStatus answers q) =
           (set (selected answers (qid q)) = set (correctAnswers q))
       \<and> (\<forall>a'. distinct a' \<and> set a' = set (selected answers (qid q)) \<longrightarrow>
             isCorrect (getQuestionStatus (answers(qid q \<mapsto> a')) q) =
             isCorrect (getQuestionStatus answers q))"
proof -
  have sized: "isCorrect (getQuestionStatus answers q) =
           (length (selected answers (qid q)) = length (correctAnswers q) \<and>
            (\<forall>c \<in> set (correctAnswers q). c \<in> set (selected answers (qid q))))"
    by (auto simp: isCorrect_code)
  have sets: "isCorrect (getQuestionStatus answers q) =
           (set (selected answers (qid q)) = set (correctAnswers q))"
    using assms(2) by (simp add: isCorrect_sets [OF assms(1)])
  have order: "\<forall>a'. distinct a' \<and> set a' = set (selected answers (qid q)) \<longrightarrow>
             isCorrect (getQuestionStatus (answers(qid q \<mapsto> a')) q) =
             isCorrect (getQuestionStatus answers q)"
    using assms(2) by (simp add: isCorrect_sets [OF assms(1)])
  from isSkipped_code isAnswered_code sized sets order show ?thesis by (intro conjI)
qed

theorem getQuestionStatus_evaluates_witness:
  "distinct (correctAnswers exampleQ2)
   \<and> distinct (selected [2 \<mapsto> [''C'', ''A'']] (qid exampleQ2))
   \<and> \<not> isSkipped (getQuestionStatus [2 \<mapsto> [''C'', ''A'']] exampleQ2)
   \<and> isAnswered (getQuestionStatus [2 \<mapsto> [''C'', ''A'']] exampleQ2)
   \<and> isCorrect (getQuestionStatus [2 \<mapsto> [''C'', ''A'']] exampleQ2)
   \<and> isCorrect (getQuestionStatus [2 \<mapsto> [''A'', ''C'']] exampleQ2)
   \<and> isSkipped (getQuestionStatus [2 \<mapsto> [''C'', ''A'']] exampleQ1)"
proof -
  let ?m = "[2 \<mapsto> [''C'', ''A'']] :: int \<rightharpoonup> string list"
  have d1: "distinct (correctAnswers exampleQ2)" by (simp add: exampleQ2_def)
  have d2: "distinct (selected ?m (qid exampleQ2))" by (simp add: exampleQ2_def selected_def)
  have d3: "distinct (correctAnswers exampleQ1)" by (simp add: exampleQ1_def)
  have d4: "distinct (selected ?m (qid exampleQ1))" by (simp add: exampleQ1_def selected_def)
  have s: "selected ?m (qid exampleQ2) = [''C'', ''A'']" by (simp add: exampleQ2_def selected_def)
  have q: "qid exampleQ2 = 2" "correctAnswers exampleQ2 = [''A'', ''C'']" "qid exampleQ1 = 1"
    by (simp_all add: exampleQ2_def exampleQ1_def)
  have u: "?m(2 \<mapsto> [''A'', ''C'']) = [2 \<mapsto> [''A'', ''C'']]" by simp
  have e: "set [''C'', ''A''] = set [''A'', ''C'']" by (simp add: insert_commute)
  note t = getQuestionStatus_evaluates [OF d1 d2, unfolded s q]
  have c: "isCorrect (getQuestionStatus ?m exampleQ2)"
    using t e by simp
  have k: "\<not> isSkipped (getQuestionStatus ?m exampleQ2)"
    using t by simp
  have a: "isAnswered (getQuestionStatus ?m exampleQ2)"
    using t by simp
  have "isCorrect (getQuestionStatus (?m(2 \<mapsto> [''A'', ''C''])) exampleQ2) =
      isCorrect (getQuestionStatus ?m exampleQ2)"
    by (rule mp [OF spec [OF t [THEN conjunct2, THEN conjunct2, THEN conjunct2, THEN conjunct2]]])
       (simp add: insert_commute)
  then have c': "isCorrect (getQuestionStatus [2 \<mapsto> [''A'', ''C'']] exampleQ2)"
    using c u by simp
  note two = c k a c'
  have one: "isSkipped (getQuestionStatus ?m exampleQ1)"
    using getQuestionStatus_evaluates [OF d3 d4] q by simp
  from d1 d2 two one show ?thesis by simp
qed

text \<open>
  C10. \<^verbatim>\<open>handleOptionSelect\<close> keeps the stored arrays free of repeated option ids: if no
  stored array has a repetition before the call, none has one after it. Outside review
  mode a \<^verbatim>\<open>single\<close> call stores the one-element array, a \<^verbatim>\<open>multiple\<close> call appends the
  option when it is absent and otherwise removes every occurrence of it. The comparison
  in \<^verbatim>\<open>getQuestionStatus\<close> rests on this: with it (and \<^verbatim>\<open>correctAnswers\<close> a set) it is
  equality of sets, without it it is not (\<open>isCorrect_repeated_id\<close>).
\<close>

theorem handleOptionSelect_keeps_distinct:
  assumes "\<forall>k xs. userAnswers st k = Some xs \<longrightarrow> distinct xs"
  shows "(\<forall>k xs. userAnswers (handleOptionSelect qId optionId ty st) k = Some xs \<longrightarrow> distinct xs)
       \<and> (\<not> isReviewMode st \<and> ty = Single \<longrightarrow>
            userAnswers (handleOptionSelect qId optionId ty st) qId = Some [optionId])
       \<and> (\<not> isReviewMode st \<and> ty = Multiple \<and> optionId \<notin> set (selected (userAnswers st) qId) \<longrightarrow>
            userAnswers (handleOptionSelect qId optionId ty st) qId =
              Some (selected (userAnswers st) qId @ [optionId]))
       \<and> (\<not> isReviewMode st \<and> ty = Multiple \<and> optionId \<in> set (selected (userAnswers st) qId) \<longrightarrow>
            optionId \<notin> set (selected (userAnswers (handleOptionSelect qId optionId ty st)) qId))
       \<and> (\<forall>q. distinct (correctAnswers q) \<longrightarrow>
            isCorrect (getQuestionStatus (userAnswers (handleOptionSelect qId optionId ty st)) q) =
            (set (selected (userAnswers (handleOptionSelect qId optionId ty st)) (qid q)) =
             set (correctAnswers q)))"
proof -
  let ?st' = "handleOptionSelect qId optionId ty st"
  have sel: "distinct (selected (userAnswers st) k)" for k
    using assms by (cases "userAnswers st k") (simp_all add: selected_def)
  have sel': "distinct (selected (userAnswers ?st') k)" for k
    using sel by (rule handleOptionSelect_selected_distinct)
  have kept: "\<forall>k xs. userAnswers ?st' k = Some xs \<longrightarrow> distinct xs"
  proof (intro allI impI)
    fix k xs
    assume "userAnswers ?st' k = Some xs"
    then show "distinct xs" using sel' [of k] by (simp add: selected_def)
  qed
  have single: "\<not> isReviewMode st \<and> ty = Single \<longrightarrow> userAnswers ?st' qId = Some [optionId]"
    by (simp add: handleOptionSelect_def updateAnswers_def)
  have appended: "\<not> isReviewMode st \<and> ty = Multiple \<and>
      optionId \<notin> set (selected (userAnswers st) qId) \<longrightarrow>
      userAnswers ?st' qId = Some (selected (userAnswers st) qId @ [optionId])"
    by (simp add: handleOptionSelect_def updateAnswers_def)
  have removed: "\<not> isReviewMode st \<and> ty = Multiple \<and>
      optionId \<in> set (selected (userAnswers st) qId) \<longrightarrow>
      optionId \<notin> set (selected (userAnswers ?st') qId)"
    by (simp add: handleOptionSelect_def selected_updateAnswers_Multiple)
  have evaluated: "\<forall>q. distinct (correctAnswers q) \<longrightarrow>
      isCorrect (getQuestionStatus (userAnswers ?st') q) =
      (set (selected (userAnswers ?st') (qid q)) = set (correctAnswers q))"
    using sel' by (simp add: isCorrect_sets)
  from kept single appended removed evaluated show ?thesis by (intro conjI)
qed

theorem handleOptionSelect_keeps_distinct_witness:
  "userAnswers (exampleStart\<lparr>userAnswers := [2 \<mapsto> [''A'']]\<rparr>) 2 = Some [''A'']
   \<and> distinct [''A'']
   \<and> userAnswers (handleOptionSelect 2 ''C'' Multiple
         (exampleStart\<lparr>userAnswers := [2 \<mapsto> [''A'']]\<rparr>)) 2 = Some [''A'', ''C'']
   \<and> distinct [''A'', ''C'']"
proof -
  let ?st = "exampleStart\<lparr>userAnswers := [2 \<mapsto> [''A'']]\<rparr>"
  have inv: "\<forall>k xs. userAnswers ?st k = Some xs \<longrightarrow> distinct xs" by auto
  have active: "\<not> isReviewMode ?st"
    by (simp add: exampleStart_def handleStartExam_def initial_state_def)
  have sel: "selected (userAnswers ?st) 2 = [''A'']" by simp
  note t = handleOptionSelect_keeps_distinct [OF inv, of 2 "''C''" Multiple]
  have stored: "userAnswers (handleOptionSelect 2 ''C'' Multiple ?st) 2 = Some [''A'', ''C'']"
    using t [THEN conjunct2, THEN conjunct2, THEN conjunct1] active sel by simp
  have "distinct [''A'', ''C'']"
    by (rule t [THEN conjunct1, rule_format, OF stored])
  moreover have "userAnswers ?st 2 = Some [''A'']" by simp
  moreover have "distinct [''A'']" by simp
  ultimately show ?thesis using stored by (intro conjI)
qed

subsection \<open>Single-select questions\<close>

lemma clickOption_single_size:
  assumes "distinct (map qid qs)" "q \<in> set qs" "qtype q = Single" "q' \<in> set qs"
    and "length (selected (userAnswers st) (qid q)) \<le> 1"
  shows "length (selected (userAnswers (clickOption q' optionId st)) (qid q)) \<le> 1"
proof (cases "isReviewMode st")
  case True
  then show ?thesis using assms(5) by (simp add: clickOption_def handleOptionSelect_def)
next
  case False
  show ?thesis
  proof (cases "qid q' = qid q")
    case True
    then have "q' = q" using assms(1,2,4) by (meson distinct_map inj_onD)
    then show ?thesis using False assms(3)
      by (simp add: clickOption_def handleOptionSelect_def selected_updateAnswers_Single)
  next
    case ne: False
    then show ?thesis using False assms(5)
      by (simp add: clickOption_def handleOptionSelect_def selected_updateAnswers_other)
  qed
qed

text \<open>
  C4. Outside review mode, \<^verbatim>\<open>handleOptionSelect\<close> on a question of type \<^verbatim>\<open>single\<close> stores
  the one-element array of the clicked option whatever was stored before, also when that
  option was the one selected (no deselection). Hence, in an exam whose question ids are
  unique, after any sequence of option clicks on questions of the exam the array of a
  \<^verbatim>\<open>single\<close> question has at most one element, provided it had at most one at the start
  (it is absent after \<^verbatim>\<open>handleStartExam\<close>).
\<close>

theorem single_select_replaces:
  assumes "distinct (map qid qs)" and "q \<in> set qs" and "qtype q = Single"
    and "\<forall>c \<in> set clicks. fst c \<in> set qs"
    and "length (selected (userAnswers st) (qid q)) \<le> 1"
  shows "(\<not> isReviewMode st \<longrightarrow>
           handleOptionSelect (qid q) optionId (qtype q) st =
             st\<lparr>userAnswers := (userAnswers st)(qid q \<mapsto> [optionId])\<rparr>)
       \<and> (\<not> isReviewMode st \<and> userAnswers st (qid q) = Some [optionId] \<longrightarrow>
           userAnswers (handleOptionSelect (qid q) optionId (qtype q) st) (qid q) = Some [optionId])
       \<and> length (selected (userAnswers (clickAll clicks st)) (qid q)) \<le> 1"
proof -
  have replaced: "\<not> isReviewMode st \<longrightarrow>
           handleOptionSelect (qid q) optionId (qtype q) st =
             st\<lparr>userAnswers := (userAnswers st)(qid q \<mapsto> [optionId])\<rparr>"
    using assms(3) by (simp add: handleOptionSelect_def updateAnswers_def)
  have again: "\<not> isReviewMode st \<and> userAnswers st (qid q) = Some [optionId] \<longrightarrow>
           userAnswers (handleOptionSelect (qid q) optionId (qtype q) st) (qid q) = Some [optionId]"
    using assms(3) by (simp add: handleOptionSelect_def updateAnswers_def)
  have sized: "length (selected (userAnswers (clickAll clicks st)) (qid q)) \<le> 1"
    using assms(4,5)
  proof (induction clicks arbitrary: st)
    case Nil
    then show ?case by simp
  next
    case (Cons c cs)
    obtain q' o' where c: "c = (q', o')" by (cases c)
    have "q' \<in> set qs" using Cons.prems(1) c by simp
    then have "length (selected (userAnswers (clickOption q' o' st)) (qid q)) \<le> 1"
      using clickOption_single_size [OF assms(1,2,3)] Cons.prems(2) by blast
    moreover have "\<forall>c \<in> set cs. fst c \<in> set qs" using Cons.prems(1) by simp
    ultimately show ?case using Cons.IH c by simp
  qed
  from replaced again sized show ?thesis by (intro conjI)
qed

theorem single_select_replaces_witness:
  "distinct (map qid (questions exampleExam))
   \<and> exampleQ1 \<in> set (questions exampleExam)
   \<and> qtype exampleQ1 = Single
   \<and> fst (exampleQ1, ''A'') \<in> set (questions exampleExam)
   \<and> fst (exampleQ2, ''A'') \<in> set (questions exampleExam)
   \<and> fst (exampleQ1, ''B'') \<in> set (questions exampleExam)
   \<and> length (selected (userAnswers exampleStart) (qid exampleQ1)) \<le> 1
   \<and> length (selected (userAnswers
        (clickAll [(exampleQ1, ''A''), (exampleQ2, ''A''), (exampleQ1, ''B'')] exampleStart))
        (qid exampleQ1)) \<le> 1
   \<and> selected (userAnswers
        (clickAll [(exampleQ1, ''A''), (exampleQ2, ''A''), (exampleQ1, ''B'')] exampleStart))
        (qid exampleQ1) = [''B'']"
proof -
  have h1: "distinct (map qid (questions exampleExam))"
    by (simp add: exampleExam_def exampleQ1_def exampleQ2_def)
  have h2: "exampleQ1 \<in> set (questions exampleExam)" by (simp add: exampleExam_def)
  have h2': "exampleQ2 \<in> set (questions exampleExam)" by (simp add: exampleExam_def)
  have h3: "qtype exampleQ1 = Single" by (simp add: exampleQ1_def)
  have h4: "\<forall>c \<in> set [(exampleQ1, ''A''), (exampleQ2, ''A''), (exampleQ1, ''B'')].
              fst c \<in> set (questions exampleExam)"
    using h2 h2' by simp
  have h5: "length (selected (userAnswers exampleStart) (qid exampleQ1)) \<le> 1"
    by (simp add: exampleStart_def handleStartExam_def selected_def)
  have stored: "selected (userAnswers
        (clickAll [(exampleQ1, ''A''), (exampleQ2, ''A''), (exampleQ1, ''B'')] exampleStart))
        (qid exampleQ1) = [''B'']"
    by (simp add: clickOption_def handleOptionSelect_def updateAnswers_def exampleStart_def
        handleStartExam_def initial_state_def selected_def exampleQ1_def exampleQ2_def)
  note t = single_select_replaces [OF h1 h2 h3 h4 h5]
  from h1 h2 h2' h3 h5 t [THEN conjunct2, THEN conjunct2] stored show ?thesis by simp
qed

subsection \<open>The timer\<close>

lemma timerTick_funpow_active:
  "timerActive st \<Longrightarrow> (timerTick ^^ N) st = st\<lparr>timeElapsed := timeElapsed st + int N\<rparr>"
proof (induction N)
  case 0
  then show ?case by simp
next
  case (Suc N)
  then have "timerActive ((timerTick ^^ N) st)" by (simp add: timerActive_def)
  then show ?case using Suc by (simp add: timerTick_def)
qed

lemma timerTick_funpow_idle: "\<not> timerActive st \<Longrightarrow> (timerTick ^^ N) st = st"
  by (induction N) (simp_all add: timerTick_def)

text \<open>
  C6. While the exam is shown outside review mode (the session is active), one tick adds
  exactly 1 to \<^verbatim>\<open>timeElapsed\<close> and changes nothing else, so \<open>N\<close> ticks add exactly \<open>N\<close>. In
  review mode no interval exists: a tick, and any number of them, leaves the state as it
  is, and no handler that stays in review mode changes \<^verbatim>\<open>timeElapsed\<close>
  (\<^verbatim>\<open>handleStartExam\<close>, which resets it, starts a new active session).
\<close>

theorem timer_ticks:
  "(timerActive st \<longrightarrow>
      timerTick st = st\<lparr>timeElapsed := timeElapsed st + 1\<rparr> \<and>
      (timerTick ^^ N) st = st\<lparr>timeElapsed := timeElapsed st + int N\<rparr> \<and>
      timeElapsed ((timerTick ^^ N) st) = timeElapsed st + int N)
   \<and> (isReviewMode st \<longrightarrow>
      \<not> timerActive st \<and> timerTick st = st \<and> (timerTick ^^ N) st = st \<and>
      timeElapsed (handleOptionSelect qId optionId ty st) = timeElapsed st \<and>
      timeElapsed (handleNext st) = timeElapsed st \<and>
      timeElapsed (handlePrev st) = timeElapsed st \<and>
      timeElapsed (handleSubmitExam confirm st) = timeElapsed st \<and>
      timeElapsed (handleReviewQuestion index st) = timeElapsed st \<and>
      timeElapsed (handleGoHome st) = timeElapsed st)"
proof -
  have active: "timerActive st \<longrightarrow>
      timerTick st = st\<lparr>timeElapsed := timeElapsed st + 1\<rparr> \<and>
      (timerTick ^^ N) st = st\<lparr>timeElapsed := timeElapsed st + int N\<rparr> \<and>
      timeElapsed ((timerTick ^^ N) st) = timeElapsed st + int N"
    by (simp add: timerTick_funpow_active) (simp add: timerTick_def)
  have idle: "isReviewMode st \<longrightarrow>
      \<not> timerActive st \<and> timerTick st = st \<and> (timerTick ^^ N) st = st"
    by (simp add: timerTick_funpow_idle timerTick_def timerActive_def)
  have handlers: "timeElapsed (handleOptionSelect qId optionId ty st) = timeElapsed st \<and>
      timeElapsed (handleNext st) = timeElapsed st \<and>
      timeElapsed (handlePrev st) = timeElapsed st \<and>
      timeElapsed (handleSubmitExam confirm st) = timeElapsed st \<and>
      timeElapsed (handleReviewQuestion index st) = timeElapsed st \<and>
      timeElapsed (handleGoHome st) = timeElapsed st"
    by (simp add: handleOptionSelect_def handleNext_def handlePrev_def handleSubmitExam_def
        handleReviewQuestion_def handleGoHome_def split: option.split)
  from active idle handlers show ?thesis by simp
qed

theorem timer_ticks_witness:
  "timerActive exampleStart
   \<and> timeElapsed ((timerTick ^^ 5) exampleStart) = 5
   \<and> isReviewMode (exampleStart\<lparr>isReviewMode := True, timeElapsed := 7\<rparr>)
   \<and> timeElapsed ((timerTick ^^ 5) (exampleStart\<lparr>isReviewMode := True, timeElapsed := 7\<rparr>)) = 7"
proof -
  have a: "timerActive exampleStart"
    by (simp add: timerActive_def exampleStart_def handleStartExam_def initial_state_def)
  have z: "timeElapsed exampleStart = 0"
    by (simp add: exampleStart_def handleStartExam_def)
  have r: "isReviewMode (exampleStart\<lparr>isReviewMode := True, timeElapsed := 7\<rparr>)" by simp
  have "timeElapsed ((timerTick ^^ 5) exampleStart) = 5"
    using timer_ticks [of exampleStart 5] a z by simp
  moreover have "timeElapsed ((timerTick ^^ 5)
      (exampleStart\<lparr>isReviewMode := True, timeElapsed := 7\<rparr>)) = 7"
    using timer_ticks [of "exampleStart\<lparr>isReviewMode := True, timeElapsed := 7\<rparr>" 5] r by simp
  ultimately show ?thesis using a r by (intro conjI)
qed

subsection \<open>Submitting\<close>

lemma partialMessage_neq_fullMessage: "partialMessage a t \<noteq> fullMessage"
  by (simp add: partialMessage_def fullMessage_def)

text \<open>
  C7. With an exam loaded, \<^verbatim>\<open>handleSubmitExam\<close> asks the confirmation callback exactly one
  question: the "You have answered a/t questions. Submit now?" message when the number of
  answered questions is below the number of questions, and the different message
  "Confirm submission?" otherwise. When the callback answers false the state is unchanged
  (the session stays out of review mode); when it answers true the view becomes the
  result view and review mode is switched on, nothing else changes.
\<close>

theorem submit_confirms:
  assumes "currentExam st = Some exam"
  shows "submitMessage st =
           Some (if card (dom (userAnswers st)) < length (questions exam)
                 then partialMessage (card (dom (userAnswers st))) (length (questions exam))
                 else fullMessage)
       \<and> partialMessage (card (dom (userAnswers st))) (length (questions exam)) \<noteq> fullMessage
       \<and> (\<not> confirm (the (submitMessage st)) \<longrightarrow>
            handleSubmitExam confirm st = st \<and>
            isReviewMode (handleSubmitExam confirm st) = isReviewMode st)
       \<and> (confirm (the (submitMessage st)) \<longrightarrow>
            handleSubmitExam confirm st = st\<lparr>view := Result, isReviewMode := True\<rparr>)"
  using assms
  by (simp add: submitMessage_def handleSubmitExam_def Let_def partialMessage_neq_fullMessage)

theorem submit_confirms_witness:
  "currentExam exampleStart = Some exampleExam
   \<and> submitMessage exampleStart = Some ''You have answered 0/2 questions. Submit now?''
   \<and> handleSubmitExam (\<lambda>msg. False) exampleStart = exampleStart
   \<and> \<not> isReviewMode (handleSubmitExam (\<lambda>msg. False) exampleStart)
   \<and> isReviewMode (handleSubmitExam (\<lambda>msg. True) exampleStart)
   \<and> view (handleSubmitExam (\<lambda>msg. True) exampleStart) = Result"
proof -
  have e: "currentExam exampleStart = Some exampleExam"
    by (simp add: exampleStart_def handleStartExam_def)
  have n: "card (dom (userAnswers exampleStart)) = 0" "length (questions exampleExam) = 2"
    "\<not> isReviewMode exampleStart"
    by (simp_all add: exampleStart_def handleStartExam_def exampleExam_def)
  have m: "partialMessage 0 2 = ''You have answered 0/2 questions. Submit now?''"
    by (simp add: partialMessage_def toString_def digits_of.simps digit_char_def)
  note no = submit_confirms [OF e, of "\<lambda>msg. False", unfolded n]
  note yes = submit_confirms [OF e, of "\<lambda>msg. True", unfolded n]
  from e no yes n(3) m show ?thesis by simp
qed

subsection \<open>Jumping to a question\<close>

lemma render_ExamPage:
  assumes "render st = Inr (ExamPage q)"
  shows "view st = Exam \<and> (\<exists>exam. currentExam st = Some exam \<and> currentQ st = Some q \<and>
           0 \<le> currentQuestionIdx st \<and> currentQuestionIdx st < int (length (questions exam)))"
proof -
  have h: "view st \<noteq> Home" "resultDashboard st = None"
    using assms by (auto simp: render_def split: if_splits option.splits)
  obtain exam where e: "currentExam st = Some exam" "currentQ st = Some q"
    using assms h by (auto simp: render_def split: option.splits)
  have "view st \<noteq> Result" using h(2) e(1) by (auto simp: resultDashboard_def Let_def)
  then have v: "view st = Exam" using h(1) by (cases "view st") simp_all
  have "0 \<le> currentQuestionIdx st \<and> currentQuestionIdx st < int (length (questions exam))"
    using e by (auto simp: currentQ_def split: if_splits)
  then show ?thesis using v e by simp
qed

lemma render_ResultPage:
  assumes "render st = Inr (ResultPage d)"
  shows "view st = Result \<and> (\<exists>exam. currentExam st = Some exam)"
  using assms
  by (auto simp: render_def resultDashboard_def Let_def split: if_splits option.splits)

lemma render_HomePage: "render st = Inr HomePage \<Longrightarrow> view st = Home"
  by (auto simp: render_def split: if_splits option.splits)

text \<open>
  Whenever the result dashboard is shown, the exam has at least one question: the
  dashboard is entered only through Submit, which only a rendered exam page offers.
\<close>

definition result_has_questions :: "app_state \<Rightarrow> bool" where
  "result_has_questions st =
     (view st = Result \<longrightarrow> (\<forall>exam. currentExam st = Some exam \<longrightarrow> questions exam \<noteq> []))"

lemma offered_result_has_questions:
  assumes "result_has_questions st" and "offered examData st e"
  shows "result_has_questions (dispatch e st)"
proof (cases "render st")
  case (Inl err)
  then show ?thesis using assms(2) by (simp add: offered_def)
next
  case (Inr p)
  show ?thesis
  proof (cases p)
    case HomePage
    then obtain exam where "e = StartExam exam"
      using assms(2) Inr by (cases e) (simp_all add: offered_def)
    then show ?thesis by (simp add: result_has_questions_def handleStartExam_def)
  next
    case (ResultPage d)
    then have "e = GoHome \<or> e = ReviewQuestion 0"
      using assms(2) Inr by (cases e) (simp_all add: offered_def)
    then show ?thesis
      by (auto simp: result_has_questions_def handleGoHome_def handleReviewQuestion_def)
  next
    case NoPage
    then have "e = TimerTick" using assms(2) Inr by (cases e) (simp_all add: offered_def)
    then show ?thesis using assms(1) by (simp add: result_has_questions_def timerTick_def)
  next
    case (ExamPage q)
    then have r: "render st = Inr (ExamPage q)" using Inr by simp
    obtain exam where x: "view st = Exam" "currentExam st = Some exam"
      "0 \<le> currentQuestionIdx st" "currentQuestionIdx st < int (length (questions exam))"
      using render_ExamPage [OF r] by blast
    have ne: "questions exam \<noteq> []" using x(3,4) by auto
    show ?thesis
    proof (cases e)
      case (SubmitExam confirm)
      then show ?thesis using x ne
        by (auto simp: result_has_questions_def handleSubmitExam_def split: option.splits)
    qed (use x in \<open>auto simp: result_has_questions_def handleStartExam_def
          handleOptionSelect_def handleNext_def handlePrev_def handleReviewQuestion_def
          handleGoHome_def timerTick_def split: option.splits\<close>)
  qed
qed

lemma offeredAll_result_has_questions:
  "result_has_questions st \<Longrightarrow> offeredAll examData es st \<Longrightarrow> result_has_questions (run es st)"
proof (induction es arbitrary: st)
  case Nil
  then show ?case by simp
next
  case (Cons e es)
  have "result_has_questions (dispatch e st)"
    using Cons.prems by (intro offered_result_has_questions [of st examData e]) simp_all
  then show ?case using Cons.IH Cons.prems(2) by simp
qed

lemma offered_ReviewQuestion_in_range:
  assumes "result_has_questions st" and "offered examData st (ReviewQuestion index)"
  shows "\<exists>exam. currentExam st = Some exam \<and> 0 \<le> index \<and> index < int (length (questions exam))"
proof (cases "render st")
  case (Inl err)
  then show ?thesis using assms(2) by (simp add: offered_def)
next
  case (Inr p)
  show ?thesis
  proof (cases p)
    case HomePage
    then show ?thesis using assms(2) Inr by (simp add: offered_def)
  next
    case (ResultPage d)
    then have r: "render st = Inr (ResultPage d)" using Inr by simp
    obtain exam where x: "view st = Result" "currentExam st = Some exam"
      using render_ResultPage [OF r] by blast
    have "questions exam \<noteq> []" using assms(1) x by (simp add: result_has_questions_def)
    moreover have "index = 0" using assms(2) r by (simp add: offered_def)
    ultimately show ?thesis using x(2) by simp
  next
    case NoPage
    then show ?thesis using assms(2) Inr by (simp add: offered_def)
  next
    case (ExamPage q)
    then show ?thesis using assms(2) Inr by (simp add: offered_def split: option.splits)
  qed
qed

text \<open>
  On a run through the user interface over exams that all have a question, the index
  stays inside the loaded exam, so no render throws.
\<close>

definition index_in_range :: "app_state \<Rightarrow> bool" where
  "index_in_range st =
     (\<forall>exam. currentExam st = Some exam \<longrightarrow>
        0 \<le> currentQuestionIdx st \<and> currentQuestionIdx st < int (length (questions exam)))"

lemma index_in_range_render: "index_in_range st \<Longrightarrow> render st \<noteq> Inl TypeError"
  by (auto simp: index_in_range_def render_def currentQ_def split: option.splits)

lemma offered_index_in_range:
  assumes "\<forall>exam \<in> set examData. questions exam \<noteq> []"
    and "index_in_range st" and "offered examData st e"
  shows "index_in_range (dispatch e st)"
proof (cases e)
  case (StartExam exam)
  then have "render st = Inr HomePage \<and> exam \<in> set examData"
    using assms(3) by (auto simp: offered_def split: sum.splits page.splits)
  then have "questions exam \<noteq> []" using assms(1) by simp
  then show ?thesis using StartExam by (simp add: index_in_range_def handleStartExam_def)
next
  case (OptionSelect qId optionId ty)
  then show ?thesis using assms(2) by (simp add: index_in_range_def handleOptionSelect_def)
next
  case Next
  then show ?thesis using assms(2)
    by (auto simp: index_in_range_def handleNext_def split: option.splits)
next
  case Prev
  then show ?thesis using assms(2) by (auto simp: index_in_range_def handlePrev_def)
next
  case (SubmitExam confirm)
  then show ?thesis using assms(2)
    by (auto simp: index_in_range_def handleSubmitExam_def split: option.splits)
next
  case (ReviewQuestion index)
  have "result_has_questions st"
    using assms(2) by (auto simp: result_has_questions_def index_in_range_def)
  then obtain exam where "currentExam st = Some exam" "0 \<le> index"
    "index < int (length (questions exam))"
    using offered_ReviewQuestion_in_range assms(3) ReviewQuestion by blast
  then show ?thesis using ReviewQuestion
    by (simp add: index_in_range_def handleReviewQuestion_def)
next
  case GoHome
  then show ?thesis by (simp add: index_in_range_def handleGoHome_def)
next
  case TimerTick
  then show ?thesis using assms(2) by (simp add: index_in_range_def timerTick_def)
qed

lemma offeredAll_index_in_range:
  assumes "\<forall>exam \<in> set examData. questions exam \<noteq> []"
  shows "index_in_range st \<Longrightarrow> offeredAll examData es st \<Longrightarrow> index_in_range (run es st)"
proof (induction es arbitrary: st)
  case Nil
  then show ?case by simp
next
  case (Cons e es)
  have "index_in_range (dispatch e st)"
    using assms Cons.prems by (intro offered_index_in_range [of examData st e]) simp_all
  then show ?case using Cons.IH Cons.prems(2) by simp
qed

lemma ui_run_never_throws:
  assumes "\<forall>exam \<in> set examData. questions exam \<noteq> []"
    and "offeredAll examData es initial_state"
  shows "render (run es initial_state) \<noteq> Inl TypeError"
proof -
  have "index_in_range initial_state" by (simp add: index_in_range_def initial_state_def)
  then have "index_in_range (run es initial_state)"
    using assms(2) by (rule offeredAll_index_in_range [OF assms(1)])
  then show ?thesis by (rule index_in_range_render)
qed

lemma render_after_handleReviewQuestion:
  assumes "currentExam st = Some exam"
  shows "render (handleReviewQuestion index st) =
     (if 0 \<le> index \<and> index < int (length (questions exam))
      then Inr (ExamPage (questions exam ! nat index)) else Inl TypeError)"
  using assms
  by (simp add: render_def handleReviewQuestion_def resultDashboard_def currentQ_def)

text \<open>
  C9. \<^verbatim>\<open>handleReviewQuestion\<close> contains no range check and does not clamp: it stores the index
  it is given and switches to the exam view. With an exam loaded, an index outside its
  questions makes the component fail, not by a check in the handler but at the next
  render, which throws a \<^verbatim>\<open>TypeError\<close> on \<^verbatim>\<open>currentQ.id\<close>; an index inside makes the next
  render show that question. The component itself never passes an index outside: on every
  run through the user interface, an offered call \<^verbatim>\<open>handleReviewQuestion(index)\<close> has its
  index inside the loaded exam (the dashboard passes 0 and is shown only for an exam with
  a question, the palette passes the index of a rendered button). \<^verbatim>\<open>handleNext\<close> and
  \<^verbatim>\<open>handlePrev\<close> guard the range themselves: from an index in range they stay in range.
\<close>

theorem handleReviewQuestion_no_range_check:
  "handleReviewQuestion index st = st\<lparr>currentQuestionIdx := index, view := Exam\<rparr>
   \<and> (currentExam st = Some exam \<and> (index < 0 \<or> int (length (questions exam)) \<le> index) \<longrightarrow>
        render (handleReviewQuestion index st) = Inl TypeError)
   \<and> (currentExam st = Some exam \<and> 0 \<le> index \<and> index < int (length (questions exam)) \<longrightarrow>
        render (handleReviewQuestion index st) = Inr (ExamPage (questions exam ! nat index)))
   \<and> (offeredAll examData es initial_state \<and>
        offered examData (run es initial_state) (ReviewQuestion index) \<longrightarrow>
        (\<exists>loaded. currentExam (run es initial_state) = Some loaded \<and>
           0 \<le> index \<and> index < int (length (questions loaded))))
   \<and> (currentExam st = Some exam \<and> 0 \<le> currentQuestionIdx st
        \<and> currentQuestionIdx st < int (length (questions exam)) \<longrightarrow>
        0 \<le> currentQuestionIdx (handleNext st)
        \<and> currentQuestionIdx (handleNext st) < int (length (questions exam))
        \<and> 0 \<le> currentQuestionIdx (handlePrev st)
        \<and> currentQuestionIdx (handlePrev st) < int (length (questions exam)))"
proof -
  have stored: "handleReviewQuestion index st = st\<lparr>currentQuestionIdx := index, view := Exam\<rparr>"
    by (simp add: handleReviewQuestion_def)
  have throws: "currentExam st = Some exam \<and>
      (index < 0 \<or> int (length (questions exam)) \<le> index) \<longrightarrow>
      render (handleReviewQuestion index st) = Inl TypeError"
    by (auto simp: render_after_handleReviewQuestion)
  have shows_question: "currentExam st = Some exam \<and> 0 \<le> index \<and>
      index < int (length (questions exam)) \<longrightarrow>
      render (handleReviewQuestion index st) = Inr (ExamPage (questions exam ! nat index))"
    by (simp add: render_after_handleReviewQuestion)
  have callers: "offeredAll examData es initial_state \<and>
      offered examData (run es initial_state) (ReviewQuestion index) \<longrightarrow>
      (\<exists>loaded. currentExam (run es initial_state) = Some loaded \<and>
         0 \<le> index \<and> index < int (length (questions loaded)))"
  proof (intro impI, elim conjE)
    assume a: "offeredAll examData es initial_state"
      and b: "offered examData (run es initial_state) (ReviewQuestion index)"
    have "result_has_questions initial_state"
      by (simp add: result_has_questions_def initial_state_def)
    then have "result_has_questions (run es initial_state)"
      using a by (rule offeredAll_result_has_questions)
    then show "\<exists>loaded. currentExam (run es initial_state) = Some loaded \<and>
         0 \<le> index \<and> index < int (length (questions loaded))"
      using b by (rule offered_ReviewQuestion_in_range)
  qed
  have guarded: "currentExam st = Some exam \<and> 0 \<le> currentQuestionIdx st
        \<and> currentQuestionIdx st < int (length (questions exam)) \<longrightarrow>
        0 \<le> currentQuestionIdx (handleNext st)
        \<and> currentQuestionIdx (handleNext st) < int (length (questions exam))
        \<and> 0 \<le> currentQuestionIdx (handlePrev st)
        \<and> currentQuestionIdx (handlePrev st) < int (length (questions exam))"
    by (auto simp: handleNext_def handlePrev_def)
  from stored throws shows_question callers guarded show ?thesis by (intro conjI)
qed

theorem handleReviewQuestion_no_range_check_witness:
  "currentExam exampleStart = Some exampleExam
   \<and> length (questions exampleExam) = 2
   \<and> render (handleReviewQuestion 1 exampleStart) = Inr (ExamPage exampleQ2)
   \<and> render (handleReviewQuestion 2 exampleStart) = Inl TypeError
   \<and> offeredAll [exampleExam] [StartExam exampleExam] initial_state
   \<and> offered [exampleExam] (run [StartExam exampleExam] initial_state) (ReviewQuestion 1)
   \<and> 0 \<le> currentQuestionIdx exampleStart
   \<and> currentQuestionIdx (handleNext exampleStart) < int (length (questions exampleExam))
   \<and> 0 \<le> currentQuestionIdx (handlePrev exampleStart)"
proof -
  have e: "currentExam exampleStart = Some exampleExam"
    "currentQuestionIdx exampleStart = 0" "length (questions exampleExam) = 2"
    "questions exampleExam ! nat 1 = exampleQ2"
    by (simp_all add: exampleStart_def handleStartExam_def exampleExam_def)
  have home: "render initial_state = Inr HomePage"
    by (simp add: render_def initial_state_def)
  have exam: "render exampleStart = Inr (ExamPage exampleQ1)"
    by (simp add: render_def resultDashboard_def currentQ_def exampleStart_def
        handleStartExam_def exampleExam_def)
  have r: "run [StartExam exampleExam] initial_state = exampleStart"
    by (simp add: exampleStart_def)
  have o1: "offeredAll [exampleExam] [StartExam exampleExam] initial_state"
    by (simp add: offered_def home)
  have o2: "offered [exampleExam] (run [StartExam exampleExam] initial_state) (ReviewQuestion 1)"
    unfolding r by (simp add: offered_def exam e)
  note one = handleReviewQuestion_no_range_check [of 1 exampleStart exampleExam]
  note two = handleReviewQuestion_no_range_check [of 2 exampleStart exampleExam]
  have shown: "render (handleReviewQuestion 1 exampleStart) = Inr (ExamPage exampleQ2)"
    using one [THEN conjunct2, THEN conjunct2, THEN conjunct1] e by simp
  have thrown: "render (handleReviewQuestion 2 exampleStart) = Inl TypeError"
    using two [THEN conjunct2, THEN conjunct1] e by simp
  have guarded: "currentQuestionIdx (handleNext exampleStart) < int (length (questions exampleExam))
      \<and> 0 \<le> currentQuestionIdx (handlePrev exampleStart)"
    using one [THEN conjunct2, THEN conjunct2, THEN conjunct2, THEN conjunct2] e by simp
  from e(1,3) shown thrown o1 o2 guarded show ?thesis by (simp add: e(2))
qed

text \<open>
  Called with the index 7 on the two-question example exam, \<^verbatim>\<open>handleReviewQuestion\<close> stores
  7: the handler accepts the index as it is. What fails is the render that follows.
\<close>

theorem handleReviewQuestion_out_of_range:
  "length (questions exampleExam) = 2
   \<and> currentExam exampleStart = Some exampleExam
   \<and> handleReviewQuestion 7 exampleStart = exampleStart\<lparr>currentQuestionIdx := 7, view := Exam\<rparr>
   \<and> currentQuestionIdx (handleReviewQuestion 7 exampleStart) = 7
   \<and> currentQuestionIdx (handleReviewQuestion (- 1) exampleStart) = - 1
   \<and> render (handleReviewQuestion 7 exampleStart) = Inl TypeError
   \<and> render (handleReviewQuestion (- 1) exampleStart) = Inl TypeError"
  by (simp add: handleReviewQuestion_def exampleExam_def currentQ_def exampleStart_def
      handleStartExam_def render_def resultDashboard_def)

subsection \<open>The score of the result dashboard\<close>

text \<open>Powers of two, the binary exponent and rounding to the nearest integer.\<close>

lemma pow2_powi: "pow2 e = 2 powi e"
  by (simp add: pow2_def power_int_def power_inverse [symmetric] inverse_eq_divide)
     (simp add: power_one_over)

lemma pow2_pos [simp]: "0 < pow2 e"
  by (simp add: pow2_powi)

lemma pow2_neq_0 [simp]: "pow2 e \<noteq> 0"
  by (metis pow2_pos less_irrefl)

lemma pow2_add: "pow2 (a + b) = pow2 a * pow2 b"
  by (simp add: pow2_powi power_int_add)

lemma pow2_mono: "a \<le> b \<Longrightarrow> pow2 a \<le> pow2 b"
  by (simp add: pow2_powi power_int_increasing)

lemma pow2_strict_mono: "a < b \<Longrightarrow> pow2 a < pow2 b"
  by (simp add: pow2_powi power_int_strict_increasing)

lemma pow2_le_iff [simp]: "pow2 a \<le> pow2 b \<longleftrightarrow> a \<le> b"
  using pow2_mono [of a b] pow2_strict_mono [of b a] by (auto simp: not_le [symmetric])

lemma pow2_less_iff [simp]: "pow2 a < pow2 b \<longleftrightarrow> a < b"
  using pow2_le_iff [of b a] by (simp only: not_le [symmetric])

lemma pow2_nat: "0 \<le> e \<Longrightarrow> pow2 e = of_int (2 ^ nat e)"
  by (simp add: pow2_def)

lemma bits_pos: "0 < n \<Longrightarrow> 0 < bits n"
  by (subst bits.simps) simp

lemma bits_bounds: "0 < n \<Longrightarrow> 2 ^ (bits n - 1) \<le> n \<and> n < 2 ^ bits n"
proof (induction n rule: bits.induct)
  case (1 n)
  show ?case
  proof (cases "n div 2 = 0")
    case True
    then have "n = 1" using "1.prems" by linarith
    then show ?thesis by (simp add: bits.simps)
  next
    case False
    then have pos: "0 < n div 2" using "1.prems" by linarith
    let ?b = "bits (n div 2)"
    have ih: "2 ^ (?b - 1) \<le> n div 2 \<and> n div 2 < 2 ^ ?b"
      using "1.IH" "1.prems" pos by simp
    have b: "0 < ?b" using pos by (rule bits_pos)
    then have p: "(2::int) ^ ?b = 2 * 2 ^ (?b - 1)" by (cases ?b) simp_all
    have eq: "bits n = Suc ?b" using "1.prems" by (subst bits.simps) simp
    have "2 * (n div 2) \<le> n" "n < 2 * (n div 2) + 2" by linarith+
    then show ?thesis using ih p by (simp add: eq)
  qed
qed

lemma floorlog2_bounds:
  assumes "0 < x"
  shows "pow2 (floorlog2 x) \<le> x \<and> x < pow2 (floorlog2 x + 1)"
proof -
  obtain p q where pq: "quotient_of x = (p, q)" by (cases "quotient_of x")
  have q: "0 < q" using pq by (rule quotient_of_denom_pos)
  have x: "x = of_int p / of_int q" using pq by (rule quotient_of_div)
  have p: "0 < p" using assms q by (simp add: x zero_less_divide_iff)
  let ?d = "int (bits p) - int (bits q)"
  have bp: "1 \<le> bits p" "1 \<le> bits q" using bits_pos [OF p] bits_pos [OF q] by simp_all
  have cast: "0 < n \<Longrightarrow> pow2 (int (bits n) - 1) \<le> of_int n \<and> (of_int n :: rat) < pow2 (int (bits n))" for n
  proof -
    assume n: "0 < n"
    have b: "1 \<le> bits n" using bits_pos [OF n] by simp
    have "(of_int (2 ^ (bits n - 1)) :: rat) \<le> of_int n" "(of_int n :: rat) < of_int (2 ^ bits n)"
      using bits_bounds [OF n] by (simp_all only: of_int_le_iff of_int_less_iff)
    moreover have "pow2 (int (bits n) - 1) = of_int (2 ^ (bits n - 1))"
      using b by (simp add: pow2_nat nat_diff_distrib)
    moreover have "pow2 (int (bits n)) = of_int (2 ^ bits n)"
      by (simp add: pow2_nat)
    ultimately show ?thesis by simp
  qed
  note P = cast [OF p] and Q = cast [OF q]
  have qpos: "(0::rat) < of_int q" using q by simp
  have lo: "pow2 (?d - 1) < x"
  proof -
    have "pow2 (?d - 1) * of_int q < pow2 (?d - 1) * pow2 (int (bits q))"
      using Q by (intro mult_strict_left_mono) simp_all
    also have "\<dots> = pow2 (int (bits p) - 1)" by (simp add: pow2_add [symmetric])
    also have "\<dots> \<le> of_int p" using P by simp
    finally show ?thesis using qpos by (simp add: x pos_less_divide_eq)
  qed
  have hi: "x < pow2 (?d + 1)"
  proof -
    have "of_int p < pow2 (int (bits p))" using P by simp
    also have "\<dots> = pow2 (?d + 1) * pow2 (int (bits q) - 1)" by (simp add: pow2_add [symmetric])
    also have "\<dots> \<le> pow2 (?d + 1) * of_int q"
      using Q by (intro mult_left_mono) (simp_all add: less_imp_le)
    finally show ?thesis using qpos by (simp add: x pos_divide_less_eq)
  qed
  have fl: "floorlog2 x = (if pow2 ?d \<le> x then ?d else ?d - 1)"
    by (simp add: floorlog2_def pq Let_def)
  show ?thesis
  proof (cases "pow2 ?d \<le> x")
    case True
    then show ?thesis using hi by (simp add: fl)
  next
    case False
    then show ?thesis using lo by (simp add: fl not_le less_imp_le)
  qed
qed

lemma floorlog2_unique:
  assumes "pow2 d \<le> x" and "x < pow2 (d + 1)"
  shows "floorlog2 x = d"
proof -
  have x: "0 < x" using assms(1) pow2_pos [of d] by (rule less_le_trans [rotated])
  note b = floorlog2_bounds [OF x]
  have "pow2 d < pow2 (floorlog2 x + 1)" using assms(1) b by (meson le_less_trans)
  moreover have "pow2 (floorlog2 x) < pow2 (d + 1)" using assms(2) b by (meson le_less_trans)
  ultimately show ?thesis by simp
qed

lemma floorlog2_mono:
  assumes "0 < x" and "x \<le> y"
  shows "floorlog2 x \<le> floorlog2 y"
proof -
  have y: "0 < y" using assms by simp
  have "pow2 (floorlog2 x) \<le> x" using floorlog2_bounds [OF assms(1)] by simp
  also have "x \<le> y" by fact
  also have "y < pow2 (floorlog2 y + 1)" using floorlog2_bounds [OF y] by simp
  finally show ?thesis by simp
qed

lemma round_half_even_cases:
  "round_half_even u = \<lfloor>u\<rfloor> \<or> (round_half_even u = \<lfloor>u\<rfloor> + 1 \<and> 1 / 2 \<le> u - of_int \<lfloor>u\<rfloor>)"
  by (auto simp: round_half_even_def Let_def not_less)

lemma round_half_even_ge:
  assumes "of_int k \<le> u"
  shows "k \<le> round_half_even u"
proof -
  have "k \<le> \<lfloor>u\<rfloor>" using assms by (simp add: le_floor_iff)
  then show ?thesis using round_half_even_cases [of u] by linarith
qed

lemma round_half_even_le:
  assumes "u \<le> of_int k"
  shows "round_half_even u \<le> k"
proof -
  have f: "\<lfloor>u\<rfloor> \<le> k" using assms by (simp add: floor_le_iff) 
  show ?thesis
    using round_half_even_cases [of u]
  proof
    assume "round_half_even u = \<lfloor>u\<rfloor>"
    then show ?thesis using f by simp
  next
    assume a: "round_half_even u = \<lfloor>u\<rfloor> + 1 \<and> 1 / 2 \<le> u - of_int \<lfloor>u\<rfloor>"
    then have "of_int \<lfloor>u\<rfloor> < u" by simp
    then have "of_int \<lfloor>u\<rfloor> < (of_int k :: rat)" using assms by simp
    then have "\<lfloor>u\<rfloor> < k" by (simp only: of_int_less_iff)
    then show ?thesis using a by simp
  qed
qed

lemma round_half_even_near: "\<bar>of_int (round_half_even u) - u\<bar> \<le> 1 / 2"
proof -
  have "of_int \<lfloor>u\<rfloor> \<le> u" "u < of_int \<lfloor>u\<rfloor> + 1" by linarith+
  then show ?thesis
    by (auto simp: round_half_even_def Let_def not_less abs_le_iff)
qed


lemma ulp_exp_mono: "0 < x \<Longrightarrow> x \<le> y \<Longrightarrow> ulp_exp x \<le> ulp_exp y"
  using floorlog2_mono [of x y] by (simp add: ulp_exp_def)

lemma round_double_pos:
  assumes "0 < x"
  shows "round_double x =
     (if pow2 1024 \<le> of_int (round_half_even (x / pow2 (ulp_exp x))) * pow2 (ulp_exp x)
      then PosInf
      else Num (of_int (round_half_even (x / pow2 (ulp_exp x))) * pow2 (ulp_exp x)))"
  using assms by (simp add: round_double_def Let_def)

lemma round_double_le:
  assumes "0 < x" and "x \<le> b" and "b = of_int k * pow2 (ulp_exp b)" and "b < pow2 1024"
  shows "\<exists>y. round_double x = Num y \<and> 0 \<le> y \<and> y \<le> b"
proof -
  let ?e = "ulp_exp x"
  let ?m = "round_half_even (x / pow2 ?e)"
  have e: "?e \<le> ulp_exp b" using assms(1,2) by (rule ulp_exp_mono)
  have "pow2 (ulp_exp b) = pow2 (ulp_exp b - ?e) * pow2 ?e"
    by (simp add: pow2_add [symmetric])
  also have "pow2 (ulp_exp b - ?e) = of_int (2 ^ nat (ulp_exp b - ?e))"
    using e by (simp add: pow2_nat)
  finally have b: "b = of_int (k * 2 ^ nat (ulp_exp b - ?e)) * pow2 ?e"
    using assms(3) by simp
  have "x / pow2 ?e \<le> b / pow2 ?e" using assms(2) by (simp add: divide_right_mono less_imp_le)
  also have "b / pow2 ?e = of_int (k * 2 ^ nat (ulp_exp b - ?e))"
    by (subst b) simp
  finally have "?m \<le> k * 2 ^ nat (ulp_exp b - ?e)" by (rule round_half_even_le)
  then have "(of_int ?m :: rat) \<le> of_int (k * 2 ^ nat (ulp_exp b - ?e))"
    by (simp only: of_int_le_iff)
  then have "of_int ?m * pow2 ?e \<le> of_int (k * 2 ^ nat (ulp_exp b - ?e)) * pow2 ?e"
    by (rule mult_right_mono) (simp add: less_imp_le)
  from this b [symmetric] have le: "of_int ?m * pow2 ?e \<le> b" by (rule ord_le_eq_trans)
  have "of_int 0 \<le> x / pow2 ?e" using assms(1) by (simp add: less_imp_le)
  then have "0 \<le> ?m" by (rule round_half_even_ge)
  then have ge: "0 \<le> of_int ?m * pow2 ?e" by (simp add: less_imp_le)
  have "\<not> pow2 1024 \<le> of_int ?m * pow2 ?e" using le assms(4) by simp
  then show ?thesis using le ge by (simp add: round_double_pos [OF assms(1)])
qed

lemma round_double_nonneg_le:
  assumes "0 \<le> x" and "x \<le> b" and "b = of_int k * pow2 (ulp_exp b)" and "b < pow2 1024"
  shows "\<exists>y. round_double x = Num y \<and> 0 \<le> y \<and> y \<le> b"
proof (cases "x = 0")
  case True
  then show ?thesis using assms(1,2) by (simp add: round_double_def)
next
  case False
  then have "0 < x" using assms(1) by simp
  then show ?thesis using assms(2,3,4) by (rule round_double_le)
qed

lemma floorlog2_1: "floorlog2 1 = 0"
  by (rule floorlog2_unique) (simp_all add: pow2_def)

lemma floorlog2_100: "floorlog2 100 = 6"
  by (rule floorlog2_unique) (simp_all add: pow2_def)

lemma one_double: "(1::rat) = of_int (2 ^ 52) * pow2 (ulp_exp 1)"
  by (simp add: ulp_exp_def floorlog2_1 pow2_def)

lemma hundred_double: "(100::rat) = of_int (100 * 2 ^ 46) * pow2 (ulp_exp 100)"
  by (simp add: ulp_exp_def floorlog2_100 pow2_def)

lemma score_bounds:
  assumes "0 < t" and "c \<le> t"
  shows "\<exists>n. Math_round (js_times (js_div c t) 100) = Num (of_int n) \<and> 0 \<le> n \<and> n \<le> 100"
proof -
  have x: "(0::rat) \<le> of_nat c / of_nat t" "(of_nat c :: rat) / of_nat t \<le> 1"
    using assms by simp_all
  obtain y where y: "round_double (of_nat c / of_nat t) = Num y" "0 \<le> y" "y \<le> 1"
    using round_double_nonneg_le [OF x one_double] by (auto simp: pow2_def)
  have w: "0 \<le> y * 100" "y * 100 \<le> 100" using y by simp_all
  obtain z where z: "round_double (y * 100) = Num z" "0 \<le> z" "z \<le> 100"
    using round_double_nonneg_le [OF w hundred_double] by (auto simp: pow2_def)
  have s: "Math_round (js_times (js_div c t) 100) = Num (of_int \<lfloor>z + 1 / 2\<rfloor>)"
    using assms(1) by (simp add: js_div_def js_times_def Math_round_def y z)
  have "0 \<le> \<lfloor>z + 1 / 2\<rfloor>" using z(2) by simp
  moreover have "\<lfloor>z + 1 / 2\<rfloor> \<le> 100" using z(3) by (simp add: floor_le_iff)
  ultimately show ?thesis using s by blast
qed


lemma round_double_near:
  assumes "0 < x" and "round_double x = Num y"
  shows "\<bar>y - x\<bar> \<le> pow2 (ulp_exp x - 1)"
proof -
  let ?e = "ulp_exp x"
  let ?m = "round_half_even (x / pow2 ?e)"
  have y: "y = of_int ?m * pow2 ?e"
    using assms(2) by (simp add: round_double_pos [OF assms(1)] split: if_splits)
  have "(of_int ?m - x / pow2 ?e) * pow2 ?e = of_int ?m * pow2 ?e - x"
    by (simp add: left_diff_distrib)
  then have "\<bar>y - x\<bar> = \<bar>(of_int ?m - x / pow2 ?e) * pow2 ?e\<bar>"
    by (simp only: y)
  also have "\<dots> = \<bar>of_int ?m - x / pow2 ?e\<bar> * pow2 ?e"
    by (simp only: abs_mult abs_of_pos [OF pow2_pos])
  also have "\<dots> \<le> 1 / 2 * pow2 ?e"
    by (intro mult_right_mono round_half_even_near) (simp add: less_imp_le)
  also have "1 / 2 * pow2 ?e = pow2 (?e - 1)"
    using pow2_add [of "?e - 1" 1] by (simp add: pow2_def [of 1])
  finally show ?thesis .
qed

lemma round_double_near_bounded:
  assumes "0 \<le> x" and "x \<le> b" and "0 < b" and "round_double x = Num y"
  shows "\<bar>y - x\<bar> \<le> pow2 (ulp_exp b - 1)"
proof (cases "x = 0")
  case True
  then show ?thesis using assms(4) by (simp add: round_double_def less_imp_le)
next
  case False
  then have x: "0 < x" using assms(1) by simp
  have "\<bar>y - x\<bar> \<le> pow2 (ulp_exp x - 1)" using x assms(4) by (rule round_double_near)
  also have "\<dots> \<le> pow2 (ulp_exp b - 1)" using ulp_exp_mono [OF x assms(2)] by simp
  finally show ?thesis .
qed

lemma score_nearest:
  assumes "0 < t" and "c \<le> t" and "t \<le> 2 ^ 32"
  shows "\<exists>n. Math_round (js_times (js_div c t) 100) = Num (of_int n) \<and>
             \<bar>of_int n - 100 * of_nat c / of_nat t\<bar> \<le> (1 / 2 :: rat)"
proof -
  define T :: rat where "T = of_nat t"
  define v :: rat where "v = 100 * of_nat c / of_nat t"
  have "(of_nat t :: rat) \<le> of_nat (2 ^ 32)" using assms(3) by (simp only: of_nat_le_iff)
  then have T: "0 < T" "T \<le> 2 ^ 32"
    using assms(1) by (simp_all add: T_def)
  have x: "(0::rat) \<le> of_nat c / of_nat t" "(of_nat c :: rat) / of_nat t \<le> 1"
    using assms by simp_all
  obtain y where y: "round_double (of_nat c / of_nat t) = Num y" "0 \<le> y" "y \<le> 1"
    using round_double_nonneg_le [OF x one_double] by (auto simp: pow2_def)
  have w: "0 \<le> y * 100" "y * 100 \<le> 100" using y by simp_all
  obtain z where z: "round_double (y * 100) = Num z" "0 \<le> z" "z \<le> 100"
    using round_double_nonneg_le [OF w hundred_double] by (auto simp: pow2_def)
  have s: "Math_round (js_times (js_div c t) 100) = Num (of_int \<lfloor>z + 1 / 2\<rfloor>)"
    using assms(1) by (simp add: js_div_def js_times_def Math_round_def y z)
  have dy: "\<bar>y - of_nat c / of_nat t\<bar> \<le> pow2 (- 53)"
    using round_double_near_bounded [OF x _ y(1)] by (simp add: ulp_exp_def floorlog2_1)
  have dz: "\<bar>z - y * 100\<bar> \<le> pow2 (- 47)"
    using round_double_near_bounded [OF w _ z(1)] by (simp add: ulp_exp_def floorlog2_100)
  have v: "v = 100 * (of_nat c / of_nat t)" by (simp add: v_def)
  have d: "\<bar>z - v\<bar> \<le> pow2 (- 47) + 100 * pow2 (- 53)"
    using dy dz unfolding v by linarith
  have small: "pow2 (- 47) + 100 * pow2 (- 53) < 1 / (2 * T)"
  proof -
    have "pow2 (- 47) + 100 * pow2 (- 53) < 1 / 2 ^ 33" by (simp add: pow2_def)
    also have "\<dots> \<le> 1 / (2 * T)" using T by (simp add: frac_le)
    finally show ?thesis .
  qed
  let ?n = "\<lfloor>z + 1 / 2\<rfloor>"
  have n: "of_int ?n \<le> z + 1 / 2" "z + 1 / 2 < of_int ?n + 1" by linarith+
  have vT: "v * (2 * T) = of_int (200 * int c)" using T(1) by (simp add: v_def T_def)
  have TT: "2 * T = of_int (2 * int t)" "T = of_int (int t)" by (simp_all add: T_def)
  have upper: "of_int ?n \<le> v + 1 / 2"
  proof (rule ccontr)
    assume "\<not> of_int ?n \<le> v + 1 / 2"
    then have "v + 1 / 2 < of_int ?n" by simp
    then have "(v + 1 / 2) * (2 * T) < of_int ?n * (2 * T)"
      using T(1) by (intro mult_strict_right_mono) simp_all
    then have "(of_int (200 * int c + int t) :: rat) < of_int (?n * (2 * int t))"
      using vT by (simp add: distrib_right TT)
    then have "200 * int c + int t < ?n * (2 * int t)" by (simp only: of_int_less_iff)
    then have "200 * int c + int t + 1 \<le> ?n * (2 * int t)" by simp
    then have "(of_int (200 * int c + int t + 1) :: rat) \<le> of_int (?n * (2 * int t))"
      by (simp only: of_int_le_iff)
    then have "(v + 1 / 2) * (2 * T) + 1 \<le> of_int ?n * (2 * T)"
      using vT by (simp add: distrib_right TT)
    then have "v + 1 / 2 + 1 / (2 * T) \<le> of_int ?n"
      using T(1) by (simp add: field_simps)
    then show False using n(1) d small by linarith
  qed
  have lower: "v - 1 / 2 \<le> of_int ?n"
  proof (rule ccontr)
    assume "\<not> v - 1 / 2 \<le> of_int ?n"
    then have "of_int ?n < v - 1 / 2" by simp
    then have "of_int ?n * (2 * T) < (v - 1 / 2) * (2 * T)"
      using T(1) by (intro mult_strict_right_mono) simp_all
    then have "(of_int (?n * (2 * int t)) :: rat) < of_int (200 * int c - int t)"
      using vT by (simp add: left_diff_distrib TT)
    then have "?n * (2 * int t) < 200 * int c - int t" by (simp only: of_int_less_iff)
    then have "?n * (2 * int t) + 1 \<le> 200 * int c - int t" by simp
    then have "(of_int (?n * (2 * int t) + 1) :: rat) \<le> of_int (200 * int c - int t)"
      by (simp only: of_int_le_iff)
    then have "of_int ?n * (2 * T) + 1 \<le> (v - 1 / 2) * (2 * T)"
      using vT by (simp add: left_diff_distrib TT)
    then have "of_int ?n + 1 / (2 * T) \<le> v - 1 / 2"
      using T(1) by (simp add: field_simps)
    then show False using n(2) d small by linarith
  qed
  have "\<bar>of_int ?n - v\<bar> \<le> 1 / 2" using upper lower by linarith
  then show ?thesis using s unfolding v_def by blast
qed

text \<open>
  What the dashboard computes: the number of questions, the number of questions that
  \<^verbatim>\<open>getQuestionStatus\<close> finds correct, and \<^verbatim>\<open>Math.round\<close> of the double product.
\<close>

lemma resultDashboard_values:
  assumes "view st = Result" and "currentExam st = Some exam"
  shows "resultDashboard st =
     Some \<lparr>totalQ = length (questions exam),
           correctCount = length (filter (\<lambda>q. isCorrect (getQuestionStatus (userAnswers st) q))
             (questions exam)),
           score = Math_round (js_times (js_div
             (length (filter (\<lambda>q. isCorrect (getQuestionStatus (userAnswers st) q))
               (questions exam)))
             (length (questions exam))) 100)\<rparr>"
  using assms by (simp add: resultDashboard_def Let_def)

text \<open>
  With at least one question the score is an integer between 0 and 100, and (for fewer
  than \<open>2^32\<close> questions, the bound on the length of an array) an integer at distance at
  most one half from \<open>100 * correctCount / totalQ\<close>.
\<close>

lemma resultDashboard_score_range:
  assumes "view st = Result" and "currentExam st = Some exam" and "questions exam \<noteq> []"
  shows "\<exists>d n. resultDashboard st = Some d \<and> score d = Num (of_int n) \<and> 0 \<le> n \<and> n \<le> 100"
proof -
  let ?c = "length (filter (\<lambda>q. isCorrect (getQuestionStatus (userAnswers st) q)) (questions exam))"
  have "0 < length (questions exam)" using assms(3) by simp
  moreover have "?c \<le> length (questions exam)" by (rule length_filter_le)
  ultimately obtain n where "Math_round (js_times (js_div ?c (length (questions exam))) 100) =
      Num (of_int n)" "0 \<le> n" "n \<le> 100"
    using score_bounds by blast
  then show ?thesis by (simp add: resultDashboard_values [OF assms(1,2)])
qed

text \<open>The state after answering the first 23 of the forty questions correctly and submitting.\<close>

lemma clickAll_single_answers:
  assumes "\<not> isReviewMode st" and "\<forall>q \<in> set qs. qtype q = Single"
  shows "clickAll (map (\<lambda>q. (q, optionId)) qs) st =
         st\<lparr>userAnswers := (\<lambda>k. if k \<in> qid ` set qs then Some [optionId] else userAnswers st k)\<rparr>"
  using assms
proof (induction qs arbitrary: st)
  case Nil
  then show ?case by simp
next
  case (Cons q qs)
  let ?st = "st\<lparr>userAnswers := (userAnswers st)(qid q \<mapsto> [optionId])\<rparr>"
  have step: "clickOption q optionId st = ?st"
    using Cons.prems by (simp add: clickOption_def handleOptionSelect_def updateAnswers_def)
  have "clickAll (map (\<lambda>q. (q, optionId)) qs) ?st =
        ?st\<lparr>userAnswers := (\<lambda>k. if k \<in> qid ` set qs then Some [optionId] else userAnswers ?st k)\<rparr>"
    using Cons.prems by (intro Cons.IH) simp_all
  then show ?case by (auto simp: step fun_eq_iff)
qed

lemma fortySubmitted_eq:
  "fortySubmitted =
     \<lparr>view = Result, currentExam = Some fortyExam, currentQuestionIdx = 0,
      userAnswers = (\<lambda>k. if k \<in> int ` {1..<24} then Some [''B''] else None),
      timeElapsed = 0, isReviewMode = True\<rparr>"
proof -
  let ?start = "handleStartExam fortyExam initial_state"
  have t: "take 23 fortyQuestions = map (\<lambda>i. exampleQ1\<lparr>qid := int i\<rparr>) [1..<24]"
    by (simp add: fortyQuestions_def take_map take_upt)
  have ids: "qid ` set (take 23 fortyQuestions) = int ` {1..<24}"
    unfolding t by (simp add: image_image)
  have single: "\<forall>q \<in> set (take 23 fortyQuestions). qtype q = Single"
    unfolding t by (simp add: exampleQ1_def)
  have active: "\<not> isReviewMode ?start" by (simp add: handleStartExam_def)
  have clicked: "clickAll (map (\<lambda>q. (q, ''B'')) (take 23 fortyQuestions)) ?start =
      ?start\<lparr>userAnswers := (\<lambda>k. if k \<in> int ` {1..<24} then Some [''B''] else None)\<rparr>"
    unfolding clickAll_single_answers [OF active single] ids handleStartExam_answers ..
  show ?thesis
    unfolding fortySubmitted_def clicked
    by (simp add: handleSubmitExam_def submitMessage_def handleStartExam_def initial_state_def
        Let_def)
qed

lemma forty_correct_ids: "filter (\<lambda>i. i \<in> {1..<24}) [1..<41] = [1..<24]"
proof -
  have split: "[1..<41] = [1..<24] @ [24..<41]"
    using upt_add_eq_append [of 1 24 17] by simp
  have f1: "filter (\<lambda>i. i \<in> {1..<24}) [1..<24] = [1..<24]"
    by (rule filter_True) simp
  have f2: "filter (\<lambda>i. i \<in> {1..<24}) [24..<41] = []"
    by (rule filter_False) simp
  show ?thesis unfolding split filter_append f1 f2 by simp
qed

lemma forty_correct:
  "length (filter (\<lambda>q. isCorrect (getQuestionStatus
       (\<lambda>k. if k \<in> int ` {1..<24} then Some [''B''] else None) q)) fortyQuestions) = 23"
proof -
  have c: "isCorrect (getQuestionStatus (\<lambda>k. if k \<in> int ` {1..<24} then Some [''B''] else None)
            (exampleQ1\<lparr>qid := int i\<rparr>)) = (i \<in> {1..<24})" for i
    by (simp add: isCorrect_code selected_def exampleQ1_def image_iff)
  have "filter (\<lambda>q. isCorrect (getQuestionStatus
       (\<lambda>k. if k \<in> int ` {1..<24} then Some [''B''] else None) q)) fortyQuestions =
       map (\<lambda>i. exampleQ1\<lparr>qid := int i\<rparr>) (filter (\<lambda>i. i \<in> {1..<24}) [1..<41])"
    unfolding fortyQuestions_def filter_map comp_def c ..
  then show ?thesis unfolding forty_correct_ids by simp
qed

lemma score_23_of_40: "Math_round (js_times (js_div 23 40) 100) = Num 57"
  by code_simp

text \<open>
  C2. The dashboard's total is the number of questions and its correct count is the number
  of questions that \<^verbatim>\<open>getQuestionStatus\<close> finds correct, but its percentage is not always
  \<open>100 * correctCount / total\<close> rounded: after answering 23 of forty questions correctly
  the dashboard shows total 40, correct count 23 and the score 57, where
  \<open>100 * 23 / 40 = 57.5\<close> rounds to 58. The double \<^verbatim>\<open>23 / 40\<close> lies below 0.575, and its
  product with 100 rounds to a double below 57.5.
\<close>

theorem score_of_23_in_40:
  "resultDashboard fortySubmitted = Some \<lparr>totalQ = 40, correctCount = 23, score = Num 57\<rparr>
   \<and> length (questions fortyExam) = 40
   \<and> \<lfloor>100 * 23 / 40 + 1 / 2 :: rat\<rfloor> = 58
   \<and> js_div 23 40 = Num (2589569785738035 / 4503599627370496)
   \<and> js_times (js_div 23 40) 100 = Num (8092405580431359 / 140737488355328)
   \<and> 8092405580431359 / 140737488355328 < (115 / 2 :: rat)"
proof -
  have n: "length fortyQuestions = 40" by (simp add: fortyQuestions_def)
  have q: "questions fortyExam = fortyQuestions" by (simp add: fortyExam_def)
  have dash: "resultDashboard fortySubmitted =
      Some \<lparr>totalQ = 40, correctCount = 23, score = Num 57\<rparr>"
    unfolding fortySubmitted_eq resultDashboard_def
    by (simp add: Let_def n q forty_correct score_23_of_40 del: One_nat_def)
  have len: "length (questions fortyExam) = 40" by (simp add: q n)
  have exact: "\<lfloor>100 * 23 / 40 + 1 / 2 :: rat\<rfloor> = 58" by simp
  have quot: "js_div 23 40 = Num (2589569785738035 / 4503599627370496)" by code_simp
  have prod: "js_times (js_div 23 40) 100 = Num (8092405580431359 / 140737488355328)"
    by code_simp
  have below: "8092405580431359 / 140737488355328 < (115 / 2 :: rat)" by simp
  from dash len exact quot prod below show ?thesis by (intro conjI)
qed

end
